theory Spec2Isabelle
  imports Main "HOL-Library.Sublist"
begin

section \<open>JavaScript values used by the components\<close>

text \<open>
  A JavaScript string is a sequence of UTF-16 code units. The model reads a \<open>char\<close> as a
  code unit below 256 (the Latin-1 range), so \<open>length\<close> is the \<open>.length\<close> of the string
  and the functions below are what \<open>toLowerCase\<close>, \<open>trim\<close> and \<open>includes\<close> compute on
  such strings.
\<close>

definition toLowerCase_char :: "char \<Rightarrow> char" where
  "toLowerCase_char c =
     (let n = (of_char c :: nat)
      in if (65 \<le> n \<and> n \<le> 90) \<or> (192 \<le> n \<and> n \<le> 214) \<or> (216 \<le> n \<and> n \<le> 222)
         then char_of (n + 32) else c)"

definition toLowerCase :: "string \<Rightarrow> string" where
  "toLowerCase s = map toLowerCase_char s"

text \<open>White space and line terminators of ECMAScript below 256: TAB, LF, VT, FF, CR, SP, NBSP.\<close>

definition is_white_space :: "char \<Rightarrow> bool" where
  "is_white_space c = ((of_char c :: nat) \<in> {9, 10, 11, 12, 13, 32, 160})"

definition trim :: "string \<Rightarrow> string" where
  "trim s = rev (dropWhile is_white_space (rev (dropWhile is_white_space s)))"

text \<open>
  \<open>s.includes(t)\<close>: some index \<open>k\<close> with \<open>k + t.length \<le> s.length\<close> at which \<open>t\<close> stands
  in \<open>s\<close>. The search tries index 0, then the rest of the string.
\<close>

fun includes_str :: "string \<Rightarrow> string \<Rightarrow> bool" where
  "includes_str [] t = (t = [])"
| "includes_str (c # s) t = (prefix t (c # s) \<or> includes_str s t)"

text \<open>Truthiness of an optional string and of an optional number (\<open>None\<close> is undefined or null).\<close>

definition truthy_string :: "string option \<Rightarrow> bool" where
  "truthy_string v = (case v of None \<Rightarrow> False | Some s \<Rightarrow> s \<noteq> [])"

definition truthy_number :: "nat option \<Rightarrow> bool" where
  "truthy_number v = (case v of None \<Rightarrow> False | Some n \<Rightarrow> n \<noteq> 0)"

text \<open>\<open>a || b\<close> on an optional string.\<close>

definition or_string :: "string option \<Rightarrow> string option \<Rightarrow> string option" where
  "or_string a b = (if truthy_string a then a else b)"

text \<open>
  A JavaScript \<open>Set\<close> keeps its elements once each, in insertion order: a list without
  repetition. \<open>new Set(array)\<close> adds the elements of the array from left to right.
\<close>

definition Set_has :: "'a \<Rightarrow> 'a list \<Rightarrow> bool" where
  "Set_has x s = (x \<in> set s)"

definition Set_add :: "'a \<Rightarrow> 'a list \<Rightarrow> 'a list" where
  "Set_add x s = (if x \<in> set s then s else s @ [x])"

definition Set_delete :: "'a \<Rightarrow> 'a list \<Rightarrow> 'a list" where
  "Set_delete x s = filter (\<lambda>y. y \<noteq> x) s"

definition new_Set :: "'a list \<Rightarrow> 'a list" where
  "new_Set xs = foldl (\<lambda>s x. Set_add x s) [] xs"

section \<open>RawDataReviewApproval: the approval gate\<close>

text \<open>
  A fetched source as the component reads it. A field the JSON may leave out is an option.
  The fields the component only displays (title, source type, depth, parent URL, fetch
  time) are not listed; the object spread of \<open>handleApprove\<close> copies them unchanged.
\<close>

record source =
  url :: string
  source_id :: "string option"
  cleaned_content :: "string option"
  cleaned_content_length :: "nat option"
  raw_content :: "string option"
  fetch_error :: "string option"
  approved :: bool
  approved_at :: "string option"

record extraction_data =
  ed_sources :: "source list option"
  primary_url :: "string option"
  primary_title :: "string option"
  detected_card_name :: "string option"
  detected_bank :: "string option"
  extraction_id :: "string option"
  raw_extraction_id :: "string option"

text \<open>The component's state: the sources and the Set of selected indices.\<close>

record review_state =
  sources :: "source list"
  selectedSources :: "nat list"
  expandedSources :: "nat list"

definition review_initial :: review_state where
  "review_initial = \<lparr>sources = [], selectedSources = [], expandedSources = []\<rparr>"

text \<open>\<open>!s.fetch_error && s.cleaned_content_length > 100\<close>\<close>

definition has_fetch_error :: "source \<Rightarrow> bool" where
  "has_fetch_error s = truthy_string (fetch_error s)"

definition auto_valid :: "source \<Rightarrow> bool" where
  "auto_valid s =
     (\<not> has_fetch_error s \<and>
      (case cleaned_content_length s of None \<Rightarrow> False | Some n \<Rightarrow> n > 100))"

text \<open>
  \<open>new Set(sources.map((s, i) => (valid ? i : null)).filter(i => i !== null))\<close>
\<close>

definition validSources :: "source list \<Rightarrow> nat list" where
  "validSources srcs =
     new_Set (List.map_filter (\<lambda>(i, s). if auto_valid s then Some i else None)
                (enumerate 0 srcs))"

text \<open>The effect that runs when \<open>extractionData\<close> changes.\<close>

definition init_sources :: "extraction_data option \<Rightarrow> review_state \<Rightarrow> review_state" where
  "init_sources extractionData st =
     (case extractionData of
        None \<Rightarrow> st
      | Some ed \<Rightarrow>
          (case ed_sources ed of
             None \<Rightarrow> st
           | Some srcs \<Rightarrow> st\<lparr>sources := srcs, selectedSources := validSources srcs\<rparr>))"

definition handleToggleSelect :: "nat \<Rightarrow> review_state \<Rightarrow> review_state" where
  "handleToggleSelect index st =
     (let newSelected = new_Set (selectedSources st)
      in st\<lparr>selectedSources :=
             (if Set_has index newSelected then Set_delete index newSelected
              else Set_add index newSelected)\<rparr>)"

definition handleSelectAll :: "review_state \<Rightarrow> review_state" where
  "handleSelectAll st =
     st\<lparr>selectedSources := new_Set (map fst (enumerate 0 (sources st)))\<rparr>"

definition handleSelectNone :: "review_state \<Rightarrow> review_state" where
  "handleSelectNone st = st\<lparr>selectedSources := new_Set []\<rparr>"

definition handleSelectValid :: "review_state \<Rightarrow> review_state" where
  "handleSelectValid st = st\<lparr>selectedSources := validSources (sources st)\<rparr>"

text \<open>\<open>content ? content.length : 0\<close>\<close>

definition length_or_zero :: "string option \<Rightarrow> nat" where
  "length_or_zero v = (if truthy_string v then length (the v) else 0)"

text \<open>\<open>n || rest\<close> for an optional number \<open>n\<close>.\<close>

definition number_or :: "nat option \<Rightarrow> nat \<Rightarrow> nat" where
  "number_or v rest = (if truthy_number v then the v else rest)"

text \<open>The object each selected source is mapped to; \<open>now\<close> is \<open>new Date().toISOString()\<close>.\<close>

definition approve_source :: "string \<Rightarrow> source \<Rightarrow> source" where
  "approve_source now s =
     s\<lparr>approved := True,
       approved_at := Some now,
       cleaned_content_length :=
         Some (number_or (cleaned_content_length s) (length_or_zero (cleaned_content s)))\<rparr>"

definition approvedSources :: "string \<Rightarrow> review_state \<Rightarrow> source list" where
  "approvedSources now st =
     map (approve_source now)
       (map snd (filter (\<lambda>(i, s). Set_has i (selectedSources st)) (enumerate 0 (sources st))))"

text \<open>
  The summand of the \<open>reduce\<close>:
  \<open>s.cleaned_content_length || (cleaned ? cleaned.length : 0) || (raw ? raw.length : 0) || 0\<close>
\<close>

definition counted_length :: "source \<Rightarrow> nat" where
  "counted_length s =
     number_or (cleaned_content_length s)
       (if length_or_zero (cleaned_content s) \<noteq> 0 then length_or_zero (cleaned_content s)
        else if length_or_zero (raw_content s) \<noteq> 0 then length_or_zero (raw_content s)
        else 0)"

definition totalContentLength :: "source list \<Rightarrow> nat" where
  "totalContentLength approvedList = foldl (\<lambda>sum s. sum + counted_length s) 0 approvedList"

record approval_data =
  ad_primary_url :: "string option"
  ad_primary_title :: "string option"
  ad_detected_card_name :: "string option"
  ad_detected_bank :: "string option"
  keywords_used :: "string list"
  ad_sources :: "source list"
  total_sources :: nat
  total_content_length :: nat
  ad_raw_extraction_id :: "string option"

text \<open>
  \<open>handleApprove\<close> builds the record and passes it to \<open>onApprove\<close>. Reading a property of
  a missing \<open>extractionData\<close> throws inside the \<open>try\<close>, and nothing is passed on: \<open>None\<close>.
\<close>

definition handleApprove ::
  "extraction_data option \<Rightarrow> string list \<Rightarrow> string \<Rightarrow> review_state \<Rightarrow> approval_data option" where
  "handleApprove extractionData keywords now st =
     (let approvedList = approvedSources now st;
          total = totalContentLength approvedList
      in case extractionData of
           None \<Rightarrow> None
         | Some ed \<Rightarrow>
             Some \<lparr>ad_primary_url = primary_url ed,
                   ad_primary_title = primary_title ed,
                   ad_detected_card_name = detected_card_name ed,
                   ad_detected_bank = detected_bank ed,
                   keywords_used = keywords,
                   ad_sources = approvedList,
                   total_sources = length approvedList,
                   total_content_length = total,
                   ad_raw_extraction_id = or_string (extraction_id ed) (raw_extraction_id ed)\<rparr>)"

text \<open>The statistics shown above the list.\<close>

definition selectedCount :: "review_state \<Rightarrow> nat" where
  "selectedCount st = length (selectedSources st)"

definition totalChars :: "review_state \<Rightarrow> nat" where
  "totalChars st =
     foldl (\<lambda>sum s. sum + number_or (cleaned_content_length s) 0) 0
       (map snd (filter (\<lambda>(i, s). Set_has i (selectedSources st)) (enumerate 0 (sources st))))"

definition errorCount :: "review_state \<Rightarrow> nat" where
  "errorCount st = length (filter has_fetch_error (sources st))"

text \<open>
  SourceCard:
  \<open>keywords.filter(kw => source.cleaned_content?.toLowerCase().includes(kw.toLowerCase()))\<close>.
  With no cleaned content the optional chain gives undefined, and no keyword is kept.
\<close>

definition keywordMatches :: "string list \<Rightarrow> source \<Rightarrow> string list" where
  "keywordMatches keywords s =
     filter (\<lambda>kw. case cleaned_content s of
                     None \<Rightarrow> False
                   | Some content \<Rightarrow> includes_str (toLowerCase content) (toLowerCase kw))
       keywords"

text \<open>The High Relevance badge is rendered when \<open>keywordMatches.length > 5\<close>.\<close>

definition high_relevance_badge :: "string list \<Rightarrow> source \<Rightarrow> bool" where
  "high_relevance_badge keywords s = (length (keywordMatches keywords s) > 5)"

section \<open>PipelineExecution: the category to pipeline dispatcher\<close>

definition CATEGORY_PIPELINE_MAP :: "(string \<times> string list) list" where
  "CATEGORY_PIPELINE_MAP =
     [(''cashback'', [''cashback'']), (''lounge'', [''lounge_access'']), (''golf'', [''golf'']),
      (''dining'', [''dining'']), (''travel'', [''travel_benefits'']),
      (''insurance'', [''insurance'']), (''rewards'', [''rewards_points'']),
      (''movie'', [''movie'']), (''fee'', [''fee_waiver'']), (''lifestyle'', [''lifestyle'']),
      (''eligibility'', []), (''general'', [])]"

text \<open>
  The map is an object literal, so \<open>CATEGORY_PIPELINE_MAP[c]\<close> also finds the properties
  every object inherits from \<open>Object.prototype\<close>. Each of them is a truthy value with no
  \<open>forEach\<close>, and \<open>(CATEGORY_PIPELINE_MAP[c] || []).forEach(...)\<close> throws a TypeError there.
\<close>

definition Object_prototype_names :: "string list" where
  "Object_prototype_names =
     [''constructor'', ''__proto__'', ''hasOwnProperty'', ''isPrototypeOf'',
      ''propertyIsEnumerable'', ''toLocaleString'', ''toString'', ''valueOf'',
      ''__defineGetter__'', ''__defineSetter__'', ''__lookupGetter__'', ''__lookupSetter__'']"

datatype js_error = TypeError

text \<open>\<open>(table[c] || [])\<close> as the receiver of \<open>forEach\<close>\<close>

definition pipelines_of :: "(string \<times> string list) list \<Rightarrow> string \<Rightarrow> js_error + string list" where
  "pipelines_of table c =
     (case map_of table c of
        Some ps \<Rightarrow> Inr ps
      | None \<Rightarrow> if c \<in> set Object_prototype_names then Inl TypeError else Inr [])"

text \<open>
  \<open>const mapped = new Set(); cats.forEach(c => (table[c] || []).forEach(p => mapped.add(p)))\<close>,
  with the Set built so far as the accumulator.
\<close>

fun add_mapped :: "(string \<times> string list) list \<Rightarrow> string list \<Rightarrow> string list \<Rightarrow> js_error + string list" where
  "add_mapped table [] mapped = Inr mapped"
| "add_mapped table (c # cs) mapped =
     (case pipelines_of table c of
        Inl e \<Rightarrow> Inl e
      | Inr ps \<Rightarrow> add_mapped table cs (foldl (\<lambda>m p. Set_add p m) mapped ps))"

definition mapped_pipelines :: "(string \<times> string list) list \<Rightarrow> string list \<Rightarrow> js_error + string list" where
  "mapped_pipelines table cats = add_mapped table cats (new_Set [])"

text \<open>
  \<open>category_breakdown\<close> is an object from category to chunk count: its entries in key
  order.
\<close>

record card_chunks =
  category_breakdown :: "(string \<times> nat) list option"
  total_chunks :: nat

record pipeline_state =
  cardChunks :: "card_chunks option"
  selectedCategories :: "string list"
  selectedPipelines :: "string list"

definition pipeline_initial :: pipeline_state where
  "pipeline_initial = \<lparr>cardChunks = None, selectedCategories = new_Set [], selectedPipelines = new_Set []\<rparr>"

text \<open>A handler that throws leaves \<open>Inl\<close> of the error.\<close>

definition toggleCategory :: "string \<Rightarrow> pipeline_state \<Rightarrow> js_error + pipeline_state" where
  "toggleCategory cat st =
     (let copy = new_Set (selectedCategories st);
          nxt = (if Set_has cat copy then Set_delete cat copy else Set_add cat copy)
      in case mapped_pipelines CATEGORY_PIPELINE_MAP nxt of
           Inl e \<Rightarrow> Inl e
         | Inr mapped \<Rightarrow> Inr (st\<lparr>selectedCategories := nxt, selectedPipelines := mapped\<rparr>))"

definition selectAllCategories :: "pipeline_state \<Rightarrow> js_error + pipeline_state" where
  "selectAllCategories st =
     (case cardChunks st of
        None \<Rightarrow> Inr st
      | Some chunks \<Rightarrow>
          (case category_breakdown chunks of
             None \<Rightarrow> Inr st
           | Some breakdown \<Rightarrow>
               (let allCats = new_Set (map fst breakdown)
                in case mapped_pipelines CATEGORY_PIPELINE_MAP allCats of
                     Inl e \<Rightarrow> Inl e
                   | Inr mapped \<Rightarrow>
                       Inr (st\<lparr>selectedCategories := allCats, selectedPipelines := mapped\<rparr>))))"

text \<open>The generic helper \<open>toggle(set, setFn, key)\<close>, used to add or drop one pipeline by hand.\<close>

definition toggle :: "'a list \<Rightarrow> 'a \<Rightarrow> 'a list" where
  "toggle s key = (let n = new_Set s in if Set_has key n then Set_delete key n else Set_add key n)"

section \<open>ExtractionWizard\<close>

definition DEFAULT_KEYWORDS :: "string list" where
  "DEFAULT_KEYWORDS =
     [''benefit'', ''reward'', ''cashback'', ''discount'', ''lounge'', ''airport'',
      ''travel'', ''insurance'', ''annual fee'', ''interest rate'', ''eligibility'',
      ''minimum salary'', ''points'', ''miles'', ''complimentary'', ''free'',
      ''cinema'', ''golf'', ''concierge'', ''valet'', ''dining'', ''shopping'',
      ''partner'', ''merchant'', ''offer'', ''promotion'', ''feature'',
      ''aed'', ''usd'', ''%'', ''per month'', ''per year'', ''waived'',
      ''mastercard'', ''visa'', ''diners'', ''platinum'', ''signature'', ''world'',
      ''credit limit'', ''supplementary'', ''apply'', ''requirement'']"

datatype extraction_mode = single_card | bank_wide

datatype source_type = url_source | text_source | pdf_source

record session_data =
  session_id :: string

record card =
  card_id :: string
  is_selected :: bool

record candidate_url =
  cu_url :: string
  cu_is_selected :: bool

text \<open>The wizard's own view of a fetched source, and the opaque JSON it stores.\<close>

record wizard_source =
  ws_source_id :: string
  approval_status :: string

type_synonym json = string

record wizard_state =
  session :: "session_data option"
  step :: nat
  loading :: bool
  error :: string
  mode :: extraction_mode
  sourceType :: source_type
  singleCardUrl :: string
  textContent :: string
  selectedFile :: "string option"
  selectedBank :: string
  banks :: "json list"
  showAdvanced :: bool
  processPdfs :: bool
  bypassCache :: bool
  maxDepth :: nat
  followLinks :: bool
  usePlaywright :: bool
  cards :: "card list"
  selectedCardIds :: "string list"
  urls :: "candidate_url list"
  selectedUrls :: "string list"
  urlViewMode :: string
  wizard_keywords :: "string list"
  newKeyword :: string
  wizard_sources :: "wizard_source list"
  wizard_expandedSources :: "string list"
  fetchStats :: "json option"
  saveResult :: "json option"

text \<open>The \<open>useState\<close> initial values.\<close>

definition wizard_initial :: wizard_state where
  "wizard_initial =
     \<lparr>session = None, step = 1, loading = False, error = [],
      mode = single_card, sourceType = url_source, singleCardUrl = [], textContent = [],
      selectedFile = None, selectedBank = [], banks = [],
      showAdvanced = False, processPdfs = True, bypassCache = False, maxDepth = 2,
      followLinks = True, usePlaywright = True,
      cards = [], selectedCardIds = [], urls = [], selectedUrls = [],
      urlViewMode = ''relevance'', wizard_keywords = DEFAULT_KEYWORDS, newKeyword = [],
      wizard_sources = [], wizard_expandedSources = [], fetchStats = None,
      saveResult = None\<rparr>"

text \<open>
  What the server answers. A promise is rejected with an error message or fulfilled with a
  value; an HTTP reply carries \<open>res.ok\<close>, the \<open>detail\<close> of its body (the message of the
  Error the handler builds from it) and the body.
\<close>

datatype 'a promise = Rejected string | Fulfilled 'a

record 'a reply =
  reply_ok :: bool
  reply_detail :: string
  reply_data :: 'a

record wizard_server =
  create_session_reply :: "session_data reply promise"
  discover_cards_reply :: "unit promise"
  get_cards_reply :: "card list option promise"

text \<open>What a handler does besides setting state: the requests it sends and the steps it enters.\<close>

datatype request =
  PostSessions | PostSessionsUpload | PostDiscoverCards string | GetCards string

datatype effect = Request request | SetStep nat

definition handleError :: "string \<Rightarrow> wizard_state \<Rightarrow> wizard_state" where
  "handleError msg st = st\<lparr>error := msg, loading := False\<rparr>"

definition discoverCards ::
  "wizard_server \<Rightarrow> string \<Rightarrow> wizard_state \<Rightarrow> wizard_state \<times> effect list" where
  "discoverCards server sid st =
     (case discover_cards_reply server of
        Rejected msg \<Rightarrow> ((handleError msg st)\<lparr>loading := False\<rparr>, [Request (PostDiscoverCards sid)])
      | Fulfilled _ \<Rightarrow>
          (case get_cards_reply server of
             Rejected msg \<Rightarrow>
               ((handleError msg st)\<lparr>loading := False\<rparr>,
                [Request (PostDiscoverCards sid), Request (GetCards sid)])
           | Fulfilled data_cards \<Rightarrow>
               (st\<lparr>cards := (case data_cards of None \<Rightarrow> [] | Some cs \<Rightarrow> cs),
                   selectedCardIds :=
                     (case data_cards of
                        None \<Rightarrow> []
                      | Some cs \<Rightarrow> map card_id (filter is_selected cs)),
                   step := 2,
                   loading := False\<rparr>,
                [Request (PostDiscoverCards sid), Request (GetCards sid), SetStep 2])))"

definition createSession :: "wizard_server \<Rightarrow> wizard_state \<Rightarrow> wizard_state \<times> effect list" where
  "createSession server st0 =
     (let st = st0\<lparr>loading := True, error := []\<rparr> in
      if mode st = single_card \<and> sourceType st = url_source \<and> singleCardUrl st = []
        then (handleError ''Please enter a card URL'' st, [])
      else if mode st = single_card \<and> sourceType st = text_source \<and> trim (textContent st) = []
        then (handleError ''Please enter some text'' st, [])
      else if mode st = single_card \<and> sourceType st = pdf_source \<and> selectedFile st = None
        then (handleError ''Please select a PDF file'' st, [])
      else if mode st \<noteq> single_card \<and> selectedBank st = []
        then (handleError ''Please select a bank'' st, [])
      else if mode st = single_card \<and> sourceType st = pdf_source \<and> selectedFile st \<noteq> None
        then
          (case create_session_reply server of
             Rejected msg \<Rightarrow> (handleError msg st, [Request PostSessionsUpload])
           | Fulfilled res \<Rightarrow>
               if \<not> reply_ok res then (handleError (reply_detail res) st, [Request PostSessionsUpload])
               else (st\<lparr>session := Some (reply_data res), step := 4\<rparr>,
                     [Request PostSessionsUpload, SetStep 4]))
      else
          (case create_session_reply server of
             Rejected msg \<Rightarrow> (handleError msg st, [Request PostSessions])
           | Fulfilled res \<Rightarrow>
               if \<not> reply_ok res then (handleError (reply_detail res) st, [Request PostSessions])
               else
                 (let st1 = st\<lparr>session := Some (reply_data res)\<rparr> in
                  if mode st = single_card \<and> sourceType st \<noteq> url_source
                    then (st1\<lparr>step := 4\<rparr>, [Request PostSessions, SetStep 4])
                  else
                    (let (st2, effs) = discoverCards server (session_id (reply_data res)) st1
                     in (st2, Request PostSessions # effs)))))"

text \<open>Keyword management.\<close>

definition setNewKeyword :: "string \<Rightarrow> wizard_state \<Rightarrow> wizard_state" where
  "setNewKeyword v st = st\<lparr>newKeyword := v\<rparr>"

definition addKeyword :: "wizard_state \<Rightarrow> wizard_state" where
  "addKeyword st =
     (let kw = toLowerCase (trim (newKeyword st))
      in if kw \<noteq> [] \<and> kw \<notin> set (wizard_keywords st)
         then st\<lparr>wizard_keywords := wizard_keywords st @ [kw], newKeyword := []\<rparr>
         else st)"

definition removeKeyword :: "string \<Rightarrow> wizard_state \<Rightarrow> wizard_state" where
  "removeKeyword kw st = st\<lparr>wizard_keywords := filter (\<lambda>k. k \<noteq> kw) (wizard_keywords st)\<rparr>"

definition resetKeywords :: "wizard_state \<Rightarrow> wizard_state" where
  "resetKeywords st = st\<lparr>wizard_keywords := DEFAULT_KEYWORDS\<rparr>"

definition reset :: "wizard_state \<Rightarrow> wizard_state" where
  "reset st =
     st\<lparr>session := None, step := 1, cards := [], selectedCardIds := [], urls := [],
        selectedUrls := [], wizard_sources := [], saveResult := None, fetchStats := None,
        error := [], wizard_keywords := DEFAULT_KEYWORDS, singleCardUrl := [], textContent := [],
        selectedFile := None\<rparr>"

text \<open>The user's actions on the keyword list, and a run of them from the initial state.\<close>

datatype keyword_action =
  TypeKeyword string | AddKeyword | RemoveKeyword string | ResetKeywords | ResetWizard

fun keyword_step :: "wizard_state \<Rightarrow> keyword_action \<Rightarrow> wizard_state" where
  "keyword_step st (TypeKeyword v) = setNewKeyword v st"
| "keyword_step st AddKeyword = addKeyword st"
| "keyword_step st (RemoveKeyword kw) = removeKeyword kw st"
| "keyword_step st ResetKeywords = resetKeywords st"
| "keyword_step st ResetWizard = reset st"

definition run_keyword_actions :: "keyword_action list \<Rightarrow> wizard_state" where
  "run_keyword_actions acts = foldl keyword_step wizard_initial acts"

section \<open>ExtractionFormV2\<close>

record link =
  link_url :: string
  relevance :: string

record discovery_result =
  discovered_links :: "link list option"
  pdf_links :: "link list option"

record form_state =
  inputValue :: string
  discovering :: bool
  form_error :: string
  form_step :: nat
  discoveryResult :: "discovery_result option"
  form_selectedUrls :: "string list"
  form_keywords :: "string list"
  form_newKeyword :: string

definition form_initial :: form_state where
  "form_initial =
     \<lparr>inputValue = [], discovering = False, form_error = [], form_step = 1,
      discoveryResult = None, form_selectedUrls = [],
      form_keywords = DEFAULT_KEYWORDS, form_newKeyword = []\<rparr>"

text \<open>The same keyword handlers as the wizard's, on the form's state.\<close>

definition form_addKeyword :: "form_state \<Rightarrow> form_state" where
  "form_addKeyword st =
     (let kw = toLowerCase (trim (form_newKeyword st))
      in if kw \<noteq> [] \<and> kw \<notin> set (form_keywords st)
         then st\<lparr>form_keywords := form_keywords st @ [kw], form_newKeyword := []\<rparr>
         else st)"

definition form_removeKeyword :: "string \<Rightarrow> form_state \<Rightarrow> form_state" where
  "form_removeKeyword keyword st =
     st\<lparr>form_keywords := filter (\<lambda>k. k \<noteq> keyword) (form_keywords st)\<rparr>"

definition form_resetKeywords :: "form_state \<Rightarrow> form_state" where
  "form_resetKeywords st = st\<lparr>form_keywords := DEFAULT_KEYWORDS\<rparr>"

text \<open>
  A rejected API call, as the \<open>catch\<close> reads it: \<open>err.response?.data?.detail\<close> and
  \<open>err.message\<close>. Reading \<open>.filter\<close> of a missing array throws a TypeError, which has no
  response; its message is the engine's.
\<close>

record api_failure =
  response_detail :: "string option"
  failure_message :: "string option"

datatype discover_outcome = DiscoverFailed api_failure | Discovered discovery_result

definition type_error_message :: string where
  "type_error_message = ''TypeError''"

definition discovery_error :: "api_failure \<Rightarrow> string" where
  "discovery_error err =
     (case or_string (or_string (response_detail err) (failure_message err))
             (Some ''Discovery failed'') of
        Some msg \<Rightarrow> msg
      | None \<Rightarrow> [])"

definition highRelevance :: "link list \<Rightarrow> link list \<Rightarrow> string list" where
  "highRelevance dl pl =
     map link_url (filter (\<lambda>l. relevance l = ''high'') dl) @
     map link_url (filter (\<lambda>l. relevance l = ''high'') pl)"

definition handleDiscover :: "discover_outcome \<Rightarrow> form_state \<Rightarrow> form_state" where
  "handleDiscover api st0 =
     (if trim (inputValue st0) = [] then st0\<lparr>form_error := ''Please enter a URL''\<rparr>
      else
        (let st = st0\<lparr>discovering := True, form_error := []\<rparr> in
         case api of
           DiscoverFailed err \<Rightarrow> st\<lparr>form_error := discovery_error err, discovering := False\<rparr>
         | Discovered result \<Rightarrow>
             (let st1 = st\<lparr>discoveryResult := Some result\<rparr> in
              case (discovered_links result, pdf_links result) of
                (Some dl, Some pl) \<Rightarrow>
                  st1\<lparr>form_selectedUrls := highRelevance dl pl, form_step := 2,
                      discovering := False\<rparr>
              | _ \<Rightarrow>
                  st1\<lparr>form_error :=
                        discovery_error
                          \<lparr>response_detail = None, failure_message = Some type_error_message\<rparr>,
                      discovering := False\<rparr>)))"

section \<open>PipelineResultsViewer\<close>

record benefit =
  benefit_id :: "string option"
  title :: string
  description :: string
  confidence_level :: string
  extraction_method :: string

text \<open>The props (\<open>results.all_benefits\<close>, \<open>rawDataId\<close>) and the two Sets of benefit ids.\<close>

record viewer =
  all_benefits :: "benefit list"
  rawDataId :: "string option"
  deletingBenefits :: "string option list"
  deletedBenefits :: "string option list"

datatype viewer_effect =
  Alert string | DeleteBenefitRequest string "string option" | OnBenefitDeleted "string option"

text \<open>
  \<open>confirmed\<close> is the answer of \<open>window.confirm\<close>, \<open>api\<close> the outcome of the DELETE request,
  \<open>notify\<close> whether the parent passed \<open>onBenefitDeleted\<close>.
\<close>

definition handleDeleteBenefit ::
  "bool \<Rightarrow> unit promise \<Rightarrow> bool \<Rightarrow> string option \<Rightarrow> viewer \<Rightarrow> viewer \<times> viewer_effect list" where
  "handleDeleteBenefit confirmed api notify benefitId v =
     (if \<not> truthy_string (rawDataId v)
        then (v, [Alert ''Cannot delete: Raw data ID is not available''])
      else if \<not> confirmed then (v, [])
      else
        (let v1 = v\<lparr>deletingBenefits := Set_add benefitId (new_Set (deletingBenefits v))\<rparr>;
             finish = (\<lambda>w. w\<lparr>deletingBenefits := Set_delete benefitId (new_Set (deletingBenefits w))\<rparr>)
         in case api of
              Fulfilled _ \<Rightarrow>
                (finish (v1\<lparr>deletedBenefits := Set_add benefitId (new_Set (deletedBenefits v1))\<rparr>),
                 DeleteBenefitRequest (the (rawDataId v)) benefitId #
                   (if notify then [OnBenefitDeleted benefitId] else []))
            | Rejected msg \<Rightarrow>
                (finish v1,
                 [DeleteBenefitRequest (the (rawDataId v)) benefitId,
                  Alert (''Failed to delete benefit: '' @ msg)])))"

text \<open>The list rendered under Extracted Benefits, and the number in its badge.\<close>

definition visible_benefits :: "viewer \<Rightarrow> benefit list" where
  "visible_benefits v =
     filter (\<lambda>b. \<not> Set_has (benefit_id b) (deletedBenefits v)) (all_benefits v)"

definition benefits_badge :: "viewer \<Rightarrow> int" where
  "benefits_badge v = int (length (all_benefits v)) - int (length (deletedBenefits v))"

section \<open>Notions the properties are stated with\<close>

text \<open>
  A selection of the review component is a Set of positions of its source list: no index
  twice, every index below the length. Every handler of the component keeps it so.
\<close>

definition selection_in_range :: "review_state \<Rightarrow> bool" where
  "selection_in_range st =
     (distinct (selectedSources st) \<and> (\<forall>i\<in>set (selectedSources st). i < length (sources st)))"

text \<open>
  The length the approval checksum is described with: a source's cleaned content length,
  and the length of its raw content when the cleaned length is absent (undefined, null or
  0, which JavaScript's \<open>||\<close> does not tell apart).
\<close>

definition claimed_length :: "source \<Rightarrow> nat" where
  "claimed_length s =
     (if truthy_number (cleaned_content_length s) then the (cleaned_content_length s)
      else length_or_zero (raw_content s))"

text \<open>
  The pipelines a category-to-pipeline table gives a category: the list stored under it,
  none for a category the table does not list.
\<close>

definition table_pipelines :: "(string \<times> string list) list \<Rightarrow> string \<Rightarrow> string list" where
  "table_pipelines table c = (case map_of table c of Some ps \<Rightarrow> ps | None \<Rightarrow> [])"

text \<open>
  Category names that are not names of properties inherited from \<open>Object.prototype\<close>: the
  content categories the vectorizer assigns (cashback, lounge, \<dots>, general) are all such.
\<close>

definition plain_categories :: "string list \<Rightarrow> bool" where
  "plain_categories cats = (\<forall>c\<in>set cats. c \<notin> set Object_prototype_names)"

text \<open>
  A seed is given when the input the chosen mode and source type ask for is there; a
  session is created when, with the seed given, the server answers the creation request
  with an ok reply carrying the session. A single-document seed is pasted text or an
  uploaded PDF in single-card mode.
\<close>

definition seed_given :: "wizard_state \<Rightarrow> bool" where
  "seed_given st =
     (case mode st of
        single_card \<Rightarrow>
          (case sourceType st of
             url_source \<Rightarrow> singleCardUrl st \<noteq> []
           | text_source \<Rightarrow> trim (textContent st) \<noteq> []
           | pdf_source \<Rightarrow> selectedFile st \<noteq> None)
      | bank_wide \<Rightarrow> selectedBank st \<noteq> [])"

definition session_created :: "wizard_server \<Rightarrow> wizard_state \<Rightarrow> session_data \<Rightarrow> bool" where
  "session_created server st d =
     (seed_given st \<and>
      (case create_session_reply server of
         Rejected msg \<Rightarrow> False
       | Fulfilled res \<Rightarrow> reply_ok res \<and> reply_data res = d))"

definition single_document_seed :: "wizard_state \<Rightarrow> bool" where
  "single_document_seed st = (mode st = single_card \<and> sourceType st \<noteq> url_source)"

text \<open>
  A benefit of a displayed result set can be deleted when the benefit ids of the result set
  identify its benefits (no id twice), the set of deleted ids is a Set, the raw data id is
  known, and the benefit is still in the visible list.
\<close>

definition deletable :: "viewer \<Rightarrow> benefit \<Rightarrow> bool" where
  "deletable v b =
     (distinct (map benefit_id (all_benefits v)) \<and> distinct (deletedBenefits v) \<and>
      truthy_string (rawDataId v) \<and> b \<in> set (visible_benefits v))"

section \<open>Sample inputs\<close>

definition sample_source :: "nat option \<Rightarrow> string option \<Rightarrow> string option \<Rightarrow> string option \<Rightarrow> source" where
  "sample_source n content raw err =
     \<lparr>url = ''https://bank.example/cards/platinum'', source_id = None,
      cleaned_content = content, cleaned_content_length = n,
      raw_content = raw, fetch_error = err, approved = False, approved_at = None\<rparr>"

definition sample_sources :: "source list" where
  "sample_sources =
     [sample_source (Some 101) None None None,
      sample_source (Some 100) None None None,
      sample_source (Some 500) None None (Some ''timeout''),
      sample_source None (Some ''cashback'') None None,
      sample_source (Some 0) (Some []) (Some ''<p>fee</p>'') (Some [])]"

definition sample_extraction :: extraction_data where
  "sample_extraction =
     \<lparr>ed_sources = Some sample_sources, primary_url = Some ''https://bank.example/cards/platinum'',
      primary_title = None, detected_card_name = None, detected_bank = None,
      extraction_id = Some ''x1'', raw_extraction_id = None\<rparr>"

definition sample_review :: review_state where
  "sample_review = \<lparr>sources = sample_sources, selectedSources = [4, 0, 3], expandedSources = []\<rparr>"

definition sample_text_source :: "string \<Rightarrow> source" where
  "sample_text_source content =
     sample_source (Some (length content)) (Some content) None None"

definition sample_table :: "(string \<times> string list) list" where
  "sample_table =
     [(''lounge'', [''travel_perks'']), (''travel'', [''travel_perks'', ''insurance'']),
      (''general'', [])]"

definition sample_pipeline_state :: pipeline_state where
  "sample_pipeline_state =
     \<lparr>cardChunks = Some \<lparr>category_breakdown = Some [(''dining'', 4), (''general'', 9), (''fee'', 2)],
                          total_chunks = 15\<rparr>,
      selectedCategories = [''eligibility'', ''travel''],
      selectedPipelines = [''travel_benefits'']\<rparr>"

definition sample_server :: wizard_server where
  "sample_server =
     \<lparr>create_session_reply =
        Fulfilled \<lparr>reply_ok = True, reply_detail = [], reply_data = \<lparr>session_id = ''s-42''\<rparr>\<rparr>,
      discover_cards_reply = Fulfilled (),
      get_cards_reply =
        Fulfilled (Some [\<lparr>card_id = ''c1'', is_selected = True\<rparr>,
                         \<lparr>card_id = ''c2'', is_selected = False\<rparr>])\<rparr>"

definition sample_text_wizard :: wizard_state where
  "sample_text_wizard =
     wizard_initial\<lparr>sourceType := text_source, textContent := ''  Platinum card: 5% cashback ''\<rparr>"

definition sample_pdf_wizard :: wizard_state where
  "sample_pdf_wizard =
     wizard_initial\<lparr>sourceType := pdf_source, selectedFile := Some ''platinum.pdf''\<rparr>"

definition sample_url_wizard :: wizard_state where
  "sample_url_wizard = wizard_initial\<lparr>singleCardUrl := ''https://bank.example/cards/platinum''\<rparr>"

definition sample_bank_wizard :: wizard_state where
  "sample_bank_wizard =
     wizard_initial\<lparr>mode := bank_wide, sourceType := text_source, selectedBank := ''enbd''\<rparr>"

definition sample_used_wizard :: wizard_state where
  "sample_used_wizard =
     wizard_initial\<lparr>session := Some \<lparr>session_id = ''s-42''\<rparr>, step := 5, maxDepth := 3,
       followLinks := False, bypassCache := True, processPdfs := False,
       mode := bank_wide, selectedBank := ''enbd'', selectedUrls := [''https://bank.example/a''],
       wizard_keywords := [''salary transfer'']\<rparr>"

definition sample_benefit :: "string \<Rightarrow> string \<Rightarrow> benefit" where
  "sample_benefit bid name =
     \<lparr>benefit_id = Some bid, title = name, description = [], confidence_level = ''high'',
      extraction_method = ''hybrid''\<rparr>"

definition sample_viewer :: viewer where
  "sample_viewer =
     \<lparr>all_benefits =
        [sample_benefit ''b1'' ''Lounge access'', sample_benefit ''b2'' ''Cashback'',
         sample_benefit ''b3'' ''Golf''],
      rawDataId = Some ''raw-7'', deletingBenefits = [], deletedBenefits = [Some ''b3'']\<rparr>"

definition sample_shared_id_viewer :: viewer where
  "sample_shared_id_viewer =
     \<lparr>all_benefits = [sample_benefit ''b1'' ''Lounge access'', sample_benefit ''b1'' ''Golf''],
      rawDataId = Some ''raw-7'', deletingBenefits = [], deletedBenefits = []\<rparr>"

definition sample_discovery :: discovery_result where
  "sample_discovery =
     \<lparr>discovered_links =
        Some [\<lparr>link_url = ''https://bank.example/benefits'', relevance = ''high''\<rparr>,
              \<lparr>link_url = ''https://bank.example/about'', relevance = ''low''\<rparr>,
              \<lparr>link_url = ''https://bank.example/offers'', relevance = ''medium''\<rparr>],
      pdf_links =
        Some [\<lparr>link_url = ''https://bank.example/fees.pdf'', relevance = ''high''\<rparr>,
              \<lparr>link_url = ''https://bank.example/terms.pdf'', relevance = ''medium''\<rparr>]\<rparr>"

definition sample_form :: form_state where
  "sample_form = form_initial\<lparr>inputValue := ''https://bank.example/cards/platinum''\<rparr>"

section \<open>JavaScript Sets as lists without repetition\<close>

lemma set_foldl_Set_add: "set (foldl (\<lambda>s x. Set_add x s) acc xs) = set acc \<union> set xs"
  by (induction xs arbitrary: acc) (auto simp: Set_add_def)

lemma distinct_foldl_Set_add: "distinct acc \<Longrightarrow> distinct (foldl (\<lambda>s x. Set_add x s) acc xs)"
  by (induction xs arbitrary: acc) (auto simp: Set_add_def)

lemma set_new_Set: "set (new_Set xs) = set xs"
  by (simp add: new_Set_def set_foldl_Set_add)

lemma distinct_new_Set: "distinct (new_Set xs)"
  by (simp add: new_Set_def distinct_foldl_Set_add)

lemma new_Set_distinct: "distinct xs \<Longrightarrow> new_Set xs = xs"
proof -
  have "distinct (acc @ xs) \<Longrightarrow> foldl (\<lambda>s x. Set_add x s) acc xs = acc @ xs" for acc
    by (induction xs arbitrary: acc) (auto simp: Set_add_def)
  from this[of "[]"] show "distinct xs \<Longrightarrow> new_Set xs = xs" by (simp add: new_Set_def)
qed

lemma distinct_Set_add: "distinct s \<Longrightarrow> distinct (Set_add x s)"
  by (simp add: Set_add_def)

lemma distinct_Set_delete: "distinct s \<Longrightarrow> distinct (Set_delete x s)"
  by (simp add: Set_delete_def)

lemma set_Set_add: "set (Set_add x s) = insert x (set s)"
  by (auto simp: Set_add_def)

lemma set_Set_delete: "set (Set_delete x s) = set s - {x}"
  by (auto simp: Set_delete_def)

section \<open>Approval gate: the default selection\<close>

lemma set_map_filter_enumerate:
  "set (List.map_filter (\<lambda>(i, s). if P s then Some i else None) (enumerate 0 xs))
     = {i. i < length xs \<and> P (xs ! i)}"
  by (auto simp: List.map_filter_def in_set_enumerate_eq image_iff split: if_splits)

lemma auto_valid_iff:
  "auto_valid s \<longleftrightarrow>
     \<not> has_fetch_error s \<and> (\<exists>n. cleaned_content_length s = Some n \<and> 100 < n)"
  by (auto simp: auto_valid_def split: option.splits)

lemma distinct_validSources: "distinct (validSources srcs)"
  by (simp add: validSources_def distinct_new_Set)

lemma set_validSources:
  "set (validSources srcs) =
     {i. i < length srcs \<and> \<not> has_fetch_error (srcs ! i) \<and>
         (\<exists>n. cleaned_content_length (srcs ! i) = Some n \<and> 100 < n)}"
  by (simp add: validSources_def set_new_Set set_map_filter_enumerate auto_valid_iff)

text \<open>
  Claim C1. When the review component receives extraction data with a source list, the
  selection it starts with is exactly the set of positions of the sources that have no
  fetch error and a cleaned content length above 100; a source with a fetch error, with
  no cleaned length or with one of at most 100 is left out. The Valid Only action
  computes the same set from the current sources.
\<close>

theorem default_selection_is_valid_sources:
  "(ed_sources ed = Some srcs \<longrightarrow>
      sources (init_sources (Some ed) st) = srcs \<and>
      distinct (selectedSources (init_sources (Some ed) st)) \<and>
      set (selectedSources (init_sources (Some ed) st)) =
        {i. i < length srcs \<and> \<not> has_fetch_error (srcs ! i) \<and>
            (\<exists>n. cleaned_content_length (srcs ! i) = Some n \<and> 100 < n)}) \<and>
   sources (handleSelectValid st) = sources st \<and>
   distinct (selectedSources (handleSelectValid st)) \<and>
   set (selectedSources (handleSelectValid st)) =
     {i. i < length (sources st) \<and> \<not> has_fetch_error (sources st ! i) \<and>
         (\<exists>n. cleaned_content_length (sources st ! i) = Some n \<and> 100 < n)}"
  by (simp add: init_sources_def handleSelectValid_def set_validSources distinct_validSources)

theorem default_selection_witness:
  "ed_sources sample_extraction = Some sample_sources \<and>
   selectedSources (init_sources (Some sample_extraction) review_initial) = [0] \<and>
   selectedSources (handleSelectValid sample_review) = [0] \<and>
   set (selectedSources (init_sources (Some sample_extraction) review_initial)) =
     {i. i < length sample_sources \<and> \<not> has_fetch_error (sample_sources ! i) \<and>
         (\<exists>n. cleaned_content_length (sample_sources ! i) = Some n \<and> 100 < n)}"
proof -
  have h: "ed_sources sample_extraction = Some sample_sources"
    by (simp add: sample_extraction_def)
  have e1: "selectedSources (init_sources (Some sample_extraction) review_initial) = [0]"
    by code_simp
  have e2: "selectedSources (handleSelectValid sample_review) = [0]"
    by code_simp
  from default_selection_is_valid_sources[of sample_extraction sample_sources review_initial]
    h e1 e2
  show ?thesis by simp
qed

section \<open>Approval gate: the checksum\<close>

lemma enumerate_nth: "enumerate 0 xs = map (\<lambda>i. (i, xs ! i)) [0..<length xs]"
proof -
  have "enumerate 0 (map (nth xs) [0..<length xs]) = map (\<lambda>i. (i, xs ! i)) [0..<length xs]"
    by (rule enumerate_map_upt)
  then show ?thesis by (simp add: map_nth)
qed

lemma selected_of_enumerate:
  "map snd (filter (\<lambda>(i, s). Set_has i sel) (enumerate 0 xs)) =
   map (\<lambda>i. xs ! i) (filter (\<lambda>i. i \<in> set sel) [0..<length xs])"
  by (simp add: enumerate_nth filter_map comp_def Set_has_def)

lemma foldl_add_sum_list:
  fixes f :: "'a \<Rightarrow> nat"
  shows "foldl (\<lambda>sum s. sum + f s) a xs = a + sum_list (map f xs)"
  by (induction xs arbitrary: a) simp_all

lemma filter_upt_selected:
  assumes "distinct sel" and "\<forall>i\<in>set sel. i < n"
  shows "set (filter (\<lambda>i. i \<in> set sel) [0..<n]) = set sel"
  using assms by auto

lemma length_selected:
  assumes "distinct sel" and "\<forall>i\<in>set sel. i < n"
  shows "length (filter (\<lambda>i. i \<in> set sel) [0..<n]) = length sel"
proof -
  have "length (filter (\<lambda>i. i \<in> set sel) [0..<n]) =
        card (set (filter (\<lambda>i. i \<in> set sel) [0..<n]))"
    by (rule distinct_card[symmetric]) simp
  also have "\<dots> = card (set sel)" using filter_upt_selected[OF assms] by simp
  also have "\<dots> = length sel" using assms(1) by (simp add: distinct_card)
  finally show ?thesis .
qed

lemma sum_selected:
  fixes f :: "nat \<Rightarrow> nat"
  assumes "distinct sel" and "\<forall>i\<in>set sel. i < n"
  shows "sum_list (map f (filter (\<lambda>i. i \<in> set sel) [0..<n])) = sum_list (map f sel)"
proof -
  have "sum_list (map f (filter (\<lambda>i. i \<in> set sel) [0..<n])) =
        sum f (set (filter (\<lambda>i. i \<in> set sel) [0..<n]))"
    by (rule sum_list_distinct_conv_sum_set) simp
  also have "\<dots> = sum f (set sel)" using filter_upt_selected[OF assms] by simp
  also have "\<dots> = sum_list (map f sel)"
    using assms(1) by (simp add: sum_list_distinct_conv_sum_set)
  finally show ?thesis .
qed

text \<open>Marking a source approved does not change what the sum counts for it.\<close>

lemma counted_length_approve: "counted_length (approve_source now s) = counted_length s"
  by (auto simp: counted_length_def approve_source_def number_or_def truthy_number_def
      split: option.splits)

lemma counted_length_approved:
  "counted_length (approve_source now s) = claimed_length (approve_source now s)"
  by (auto simp: counted_length_def approve_source_def number_or_def truthy_number_def
      claimed_length_def split: option.splits)

lemma approvedSources_eq:
  "approvedSources now st =
   map (\<lambda>i. approve_source now (sources st ! i))
     (filter (\<lambda>i. i \<in> set (selectedSources st)) [0..<length (sources st)])"
  by (simp add: approvedSources_def selected_of_enumerate comp_def)

text \<open>The handlers keep the selection a Set of positions of the source list.\<close>

lemma selection_in_range_init:
  "selection_in_range st \<Longrightarrow> selection_in_range (init_sources extractionData st)"
  by (auto simp: selection_in_range_def init_sources_def distinct_validSources set_validSources
      split: option.splits)

lemma selection_in_range_initial: "selection_in_range review_initial"
  by (simp add: selection_in_range_def review_initial_def)

lemma selection_in_range_toggle:
  "selection_in_range st \<Longrightarrow> index < length (sources st) \<Longrightarrow>
   selection_in_range (handleToggleSelect index st)"
  by (auto simp: selection_in_range_def handleToggleSelect_def Let_def distinct_Set_add
      distinct_Set_delete set_Set_add set_Set_delete distinct_new_Set set_new_Set)

lemma selection_in_range_select:
  "selection_in_range (handleSelectAll st) \<and> selection_in_range (handleSelectNone st) \<and>
   selection_in_range (handleSelectValid st)"
  by (auto simp: selection_in_range_def handleSelectAll_def handleSelectNone_def
      handleSelectValid_def distinct_new_Set set_new_Set distinct_validSources set_validSources
      in_set_enumerate_eq)

text \<open>
  Claim C3. Approving a selection passes on a record whose \<open>total_sources\<close> is the number
  of selected sources, whose \<open>total_content_length\<close> is the sum over the approved sources
  of the cleaned content length, the raw content length standing in where the cleaned
  length is absent, and in which every source is marked approved. In terms of the sources
  as they were selected, the sum takes for each the first non-zero of: the recorded
  cleaned length, the length of the cleaned content, the length of the raw content.
\<close>

theorem approval_checksum:
  assumes "selection_in_range st"
  shows "\<exists>a. handleApprove (Some ed) kws now st = Some a \<and>
           total_sources a = selectedCount st \<and>
           length (ad_sources a) = selectedCount st \<and>
           total_content_length a = sum_list (map claimed_length (ad_sources a)) \<and>
           total_content_length a =
             (\<Sum>i\<leftarrow>selectedSources st. counted_length (sources st ! i)) \<and>
           (\<forall>s\<in>set (ad_sources a). approved s)"
proof -
  let ?idx = "filter (\<lambda>i. i \<in> set (selectedSources st)) [0..<length (sources st)]"
  let ?apl = "approvedSources now st"
  from assms have d: "distinct (selectedSources st)"
    and r: "\<forall>i\<in>set (selectedSources st). i < length (sources st)"
    by (simp_all add: selection_in_range_def)
  have len: "length ?apl = selectedCount st"
    by (simp add: approvedSources_eq selectedCount_def length_selected[OF d r])
  have tot1: "totalContentLength ?apl = sum_list (map claimed_length ?apl)"
    by (simp add: totalContentLength_def foldl_add_sum_list approvedSources_eq comp_def
        counted_length_approved)
  have "totalContentLength ?apl = sum_list (map (\<lambda>i. counted_length (sources st ! i)) ?idx)"
    by (simp add: totalContentLength_def foldl_add_sum_list approvedSources_eq comp_def
        counted_length_approve)
  then have tot2: "totalContentLength ?apl =
      (\<Sum>i\<leftarrow>selectedSources st. counted_length (sources st ! i))"
    by (simp add: sum_selected[OF d r])
  have appr: "\<forall>s\<in>set ?apl. approved s"
    by (auto simp: approvedSources_eq approve_source_def)
  show ?thesis
    using len tot1 tot2 appr by (simp add: handleApprove_def Let_def)
qed

theorem approval_checksum_witness:
  "selection_in_range sample_review \<and>
   selectedCount sample_review = 3 \<and>
   (\<exists>a. handleApprove (Some sample_extraction) [''fee''] ''2024-01-01T00:00:00.000Z''
           sample_review = Some a \<and>
        total_sources a = 3 \<and> total_content_length a = 119 \<and>
        map cleaned_content_length (ad_sources a) = [Some 101, Some 8, Some 0] \<and>
        map approved (ad_sources a) = [True, True, True])"
proof -
  have h: "selection_in_range sample_review"
    by code_simp
  have c: "selectedCount sample_review = 3"
    by code_simp
  have s: "(\<Sum>i\<leftarrow>selectedSources sample_review. counted_length (sources sample_review ! i)) = 119"
    by code_simp
  have m: "map cleaned_content_length
             (approvedSources ''2024-01-01T00:00:00.000Z'' sample_review) =
           [Some 101, Some 8, Some 0]"
    by code_simp
  have p: "map approved (approvedSources ''2024-01-01T00:00:00.000Z'' sample_review) =
           [True, True, True]"
    by code_simp
  from approval_checksum[OF h, of sample_extraction "[''fee'']" "''2024-01-01T00:00:00.000Z''"]
  obtain a where a: "handleApprove (Some sample_extraction) [''fee''] ''2024-01-01T00:00:00.000Z''
        sample_review = Some a"
    and t: "total_sources a = selectedCount sample_review"
    and l: "total_content_length a =
        (\<Sum>i\<leftarrow>selectedSources sample_review. counted_length (sources sample_review ! i))"
    by blast
  from a have src: "ad_sources a = approvedSources ''2024-01-01T00:00:00.000Z'' sample_review"
    by (auto simp: handleApprove_def Let_def)
  show ?thesis using h c a t l s m p src by simp
qed

section \<open>Source cards: keyword matches and the relevance badge\<close>

lemma includes_str_sublist: "includes_str s t \<longleftrightarrow> sublist t s"
  by (induction s) (simp_all add: sublist_Cons_right)

text \<open>
  Claim C6. For a source with cleaned content, a keyword is among the matches exactly when
  its lower-cased form is a contiguous part of the lower-cased content, so a keyword inside
  a longer word counts; the matches are a function of the content and the keywords; and
  an empty keyword list gives no match and no error. A source without cleaned content
  matches nothing.
\<close>

theorem keyword_matching_is_substring_containment:
  "(cleaned_content s = Some content \<longrightarrow>
      keywordMatches kws s =
        filter (\<lambda>kw. sublist (toLowerCase kw) (toLowerCase content)) kws) \<and>
   (cleaned_content s = None \<longrightarrow> keywordMatches kws s = []) \<and>
   keywordMatches [] s = []"
  by (simp add: keywordMatches_def includes_str_sublist)

theorem keyword_matching_witness:
  "cleaned_content (sample_text_source ''A Carefree GOLF day'') = Some ''A Carefree GOLF day'' \<and>
   keywordMatches [''free'', ''Golf'', ''lounge''] (sample_text_source ''A Carefree GOLF day'') =
     [''free'', ''Golf''] \<and>
   filter (\<lambda>kw. sublist (toLowerCase kw) (toLowerCase ''A Carefree GOLF day''))
     [''free'', ''Golf'', ''lounge''] = [''free'', ''Golf''] \<and>
   keywordMatches [''cashback''] (sample_text_source ''Cashback OFFER'') =
     keywordMatches [''cashback''] (sample_text_source ''cashback offer'') \<and>
   keywordMatches [] (sample_text_source ''A Carefree GOLF day'') = []"
proof -
  have h: "cleaned_content (sample_text_source ''A Carefree GOLF day'') = Some ''A Carefree GOLF day''"
    by (simp add: sample_text_source_def sample_source_def)
  have e: "keywordMatches [''free'', ''Golf'', ''lounge''] (sample_text_source ''A Carefree GOLF day'') =
     [''free'', ''Golf'']"
    by code_simp
  have c: "keywordMatches [''cashback''] (sample_text_source ''Cashback OFFER'') =
     keywordMatches [''cashback''] (sample_text_source ''cashback offer'')"
    by code_simp
  from keyword_matching_is_substring_containment
    [of "sample_text_source ''A Carefree GOLF day''" "''A Carefree GOLF day''"
        "[''free'', ''Golf'', ''lounge'']"] h
  have f: "keywordMatches [''free'', ''Golf'', ''lounge''] (sample_text_source ''A Carefree GOLF day'') =
     filter (\<lambda>kw. sublist (toLowerCase kw) (toLowerCase ''A Carefree GOLF day''))
       [''free'', ''Golf'', ''lounge'']"
    by blast
  have n: "keywordMatches [] (sample_text_source ''A Carefree GOLF day'') = []"
    by (simp add: keywordMatches_def)
  show ?thesis using h e c f n by simp
qed

text \<open>
  Claim C5, as amended. The High Relevance badge is shown exactly when more than five,
  that is at least six, of the keywords match the cleaned content; a source matching one
  to five keywords carries no badge.
\<close>

theorem high_relevance_needs_six_matches:
  "(high_relevance_badge kws s \<longleftrightarrow> 6 \<le> length (keywordMatches kws s)) \<and>
   (high_relevance_badge kws s \<longleftrightarrow>
      (\<exists>content. cleaned_content s = Some content \<and>
         6 \<le> length (filter (\<lambda>kw. sublist (toLowerCase kw) (toLowerCase content)) kws))) \<and>
   (1 \<le> length (keywordMatches kws s) \<and> length (keywordMatches kws s) \<le> 5 \<longrightarrow>
      \<not> high_relevance_badge kws s)"
  by (cases "cleaned_content s")
     (auto simp: high_relevance_badge_def keywordMatches_def includes_str_sublist)

theorem high_relevance_needs_six_matches_witness:
  "length (keywordMatches [''cashback'', ''reward'', ''lounge'', ''golf'', ''dining'', ''fee'']
             (sample_text_source ''Cashback, rewards, lounge, golf, dining; no annual fee'')) = 6 \<and>
   high_relevance_badge [''cashback'', ''reward'', ''lounge'', ''golf'', ''dining'', ''fee'']
             (sample_text_source ''Cashback, rewards, lounge, golf, dining; no annual fee'') \<and>
   length (keywordMatches [''cashback'', ''reward'', ''lounge'']
             (sample_text_source ''Cashback, rewards, lounge, golf, dining; no annual fee'')) = 3 \<and>
   \<not> high_relevance_badge [''cashback'', ''reward'', ''lounge'']
             (sample_text_source ''Cashback, rewards, lounge, golf, dining; no annual fee'')"
proof -
  have six: "length (keywordMatches [''cashback'', ''reward'', ''lounge'', ''golf'', ''dining'', ''fee'']
             (sample_text_source ''Cashback, rewards, lounge, golf, dining; no annual fee'')) = 6"
    by code_simp
  have three: "length (keywordMatches [''cashback'', ''reward'', ''lounge'']
             (sample_text_source ''Cashback, rewards, lounge, golf, dining; no annual fee'')) = 3"
    by code_simp
  from high_relevance_needs_six_matches
    [of "[''cashback'', ''reward'', ''lounge'', ''golf'', ''dining'', ''fee'']"
        "sample_text_source ''Cashback, rewards, lounge, golf, dining; no annual fee''"] six
  have a: "high_relevance_badge [''cashback'', ''reward'', ''lounge'', ''golf'', ''dining'', ''fee'']
             (sample_text_source ''Cashback, rewards, lounge, golf, dining; no annual fee'')"
    by simp
  from high_relevance_needs_six_matches
    [of "[''cashback'', ''reward'', ''lounge'']"
        "sample_text_source ''Cashback, rewards, lounge, golf, dining; no annual fee''"] three
  have b: "\<not> high_relevance_badge [''cashback'', ''reward'', ''lounge'']
             (sample_text_source ''Cashback, rewards, lounge, golf, dining; no annual fee'')"
    by simp
  show ?thesis using six three a b by simp
qed

text \<open>
  The claim as first stated fails at five matches: the source below matches exactly five
  keywords and carries no badge.
\<close>

theorem high_relevance_at_five_counterexample:
  "length (keywordMatches [''cashback'', ''reward'', ''lounge'', ''golf'', ''dining'']
             (sample_text_source ''Cashback and reward points, lounge access, golf and dining'')) = 5 \<and>
   \<not> high_relevance_badge [''cashback'', ''reward'', ''lounge'', ''golf'', ''dining'']
             (sample_text_source ''Cashback and reward points, lounge access, golf and dining'')"
  by code_simp

section \<open>Dispatcher: categories to pipelines\<close>

lemma pipelines_of_plain:
  "c \<notin> set Object_prototype_names \<Longrightarrow> pipelines_of table c = Inr (table_pipelines table c)"
  by (simp add: pipelines_of_def table_pipelines_def split: option.splits)

lemma add_mapped_plain:
  assumes "plain_categories cats"
  shows "\<exists>r. add_mapped table cats acc = Inr r \<and>
           set r = set acc \<union> (\<Union>c\<in>set cats. set (table_pipelines table c)) \<and>
           (distinct acc \<longrightarrow> distinct r)"
  using assms
proof (induction cats arbitrary: acc)
  case Nil
  then show ?case by simp
next
  case (Cons c cs)
  let ?acc = "foldl (\<lambda>m p. Set_add p m) acc (table_pipelines table c)"
  from Cons.prems have c: "c \<notin> set Object_prototype_names" and cs: "plain_categories cs"
    by (simp_all add: plain_categories_def)
  from Cons.IH[OF cs, of ?acc] obtain r where
    r: "add_mapped table cs ?acc = Inr r"
    and s: "set r = set ?acc \<union> (\<Union>c\<in>set cs. set (table_pipelines table c))"
    and d: "distinct ?acc \<longrightarrow> distinct r"
    by blast
  have "add_mapped table (c # cs) acc = Inr r"
    using r by (simp add: pipelines_of_plain[OF c])
  moreover have "set r = set acc \<union> (\<Union>c\<in>set (c # cs). set (table_pipelines table c))"
    using s by (auto simp: set_foldl_Set_add)
  moreover have "distinct acc \<longrightarrow> distinct r"
    using d by (simp add: distinct_foldl_Set_add)
  ultimately show ?case by blast
qed

lemma mapped_pipelines_plain:
  assumes "plain_categories cats"
  shows "\<exists>mapped. mapped_pipelines table cats = Inr mapped \<and> distinct mapped \<and>
           set mapped = (\<Union>c\<in>set cats. set (table_pipelines table c))"
  using add_mapped_plain[OF assms, of table "new_Set []"]
  by (auto simp: mapped_pipelines_def new_Set_def)

lemma count_list_distinct: "distinct xs \<Longrightarrow> x \<in> set xs \<Longrightarrow> count_list xs x = 1"
  by (induction xs) auto

lemma eligibility_plain: "''eligibility'' \<notin> set Object_prototype_names"
  by (simp add: Object_prototype_names_def)

lemma general_plain: "''general'' \<notin> set Object_prototype_names"
  by (simp add: Object_prototype_names_def)

lemma eligibility_no_pipeline: "table_pipelines CATEGORY_PIPELINE_MAP ''eligibility'' = []"
  by (simp add: table_pipelines_def CATEGORY_PIPELINE_MAP_def)

lemma general_no_pipeline: "table_pipelines CATEGORY_PIPELINE_MAP ''general'' = []"
  by (simp add: table_pipelines_def CATEGORY_PIPELINE_MAP_def)

lemma informational_only:
  assumes a: "set cats \<subseteq> {''eligibility'', ''general''}"
  shows "mapped_pipelines CATEGORY_PIPELINE_MAP cats = Inr []"
proof -
  have e: "c = ''eligibility'' \<or> c = ''general''" if "c \<in> set cats" for c
    using a that by blast
  have p: "plain_categories cats"
    unfolding plain_categories_def using e eligibility_plain general_plain by blast
  have t: "table_pipelines CATEGORY_PIPELINE_MAP c = []" if "c \<in> set cats" for c
    using e[OF that] eligibility_no_pipeline general_no_pipeline by blast
  from mapped_pipelines_plain[OF p, of CATEGORY_PIPELINE_MAP] obtain mapped where
    m: "mapped_pipelines CATEGORY_PIPELINE_MAP cats = Inr mapped"
    and s: "set mapped = (\<Union>c\<in>set cats. set (table_pipelines CATEGORY_PIPELINE_MAP c))"
    by blast
  from s t have "set mapped = {}" by simp
  then show ?thesis using m by simp
qed

text \<open>
  Claim C2. For every set of selected categories (content category names, none of them
  the name of a property an object inherits) the pipelines computed from a table are the
  union of the table's entries for the selected categories, each pipeline once, also when
  two categories map to the same pipeline. \<open>toggleCategory\<close> and \<open>selectAllCategories\<close> set
  the selected pipelines to that union for the static map and the new category selection;
  selecting only eligibility or general gives no pipeline.
\<close>

theorem dispatcher_union:
  "(plain_categories cats \<longrightarrow>
      (\<exists>mapped. mapped_pipelines table cats = Inr mapped \<and>
         set mapped = (\<Union>c\<in>set cats. set (table_pipelines table c)) \<and>
         distinct mapped \<and>
         (\<forall>p\<in>set mapped. count_list mapped p = 1))) \<and>
   (plain_categories (cat # selectedCategories st) \<longrightarrow>
      (\<exists>st'. toggleCategory cat st = Inr st' \<and>
         set (selectedCategories st') =
           (if cat \<in> set (selectedCategories st) then set (selectedCategories st) - {cat}
            else insert cat (set (selectedCategories st))) \<and>
         mapped_pipelines CATEGORY_PIPELINE_MAP (selectedCategories st') =
           Inr (selectedPipelines st') \<and>
         set (selectedPipelines st') =
           (\<Union>c\<in>set (selectedCategories st'). set (table_pipelines CATEGORY_PIPELINE_MAP c)) \<and>
         distinct (selectedPipelines st'))) \<and>
   (cardChunks st = Some chunks \<and> category_breakdown chunks = Some breakdown \<and>
    plain_categories (map fst breakdown) \<longrightarrow>
      (\<exists>st'. selectAllCategories st = Inr st' \<and>
         set (selectedCategories st') = fst ` set breakdown \<and>
         set (selectedPipelines st') =
           (\<Union>c\<in>fst ` set breakdown. set (table_pipelines CATEGORY_PIPELINE_MAP c)) \<and>
         distinct (selectedPipelines st'))) \<and>
   (set cats \<subseteq> {''eligibility'', ''general''} \<longrightarrow>
      mapped_pipelines CATEGORY_PIPELINE_MAP cats = Inr [])"
proof (intro conjI impI)
  assume p: "plain_categories cats"
  from mapped_pipelines_plain[OF p, of table]
  show "\<exists>mapped. mapped_pipelines table cats = Inr mapped \<and>
         set mapped = (\<Union>c\<in>set cats. set (table_pipelines table c)) \<and>
         distinct mapped \<and> (\<forall>p\<in>set mapped. count_list mapped p = 1)"
    by (auto simp: count_list_distinct)
next
  assume p: "plain_categories (cat # selectedCategories st)"
  let ?copy = "new_Set (selectedCategories st)"
  let ?nxt = "if Set_has cat ?copy then Set_delete cat ?copy else Set_add cat ?copy"
  have pn: "plain_categories ?nxt"
    using p by (auto simp: plain_categories_def set_Set_add set_Set_delete set_new_Set)
  from mapped_pipelines_plain[OF pn, of CATEGORY_PIPELINE_MAP] obtain mapped where
    m: "mapped_pipelines CATEGORY_PIPELINE_MAP ?nxt = Inr mapped" and d: "distinct mapped"
    and s: "set mapped = (\<Union>c\<in>set ?nxt. set (table_pipelines CATEGORY_PIPELINE_MAP c))"
    by blast
  have t: "toggleCategory cat st =
      Inr (st\<lparr>selectedCategories := ?nxt, selectedPipelines := mapped\<rparr>)"
    using m by (simp add: toggleCategory_def Let_def)
  have n: "set ?nxt =
      (if cat \<in> set (selectedCategories st) then set (selectedCategories st) - {cat}
       else insert cat (set (selectedCategories st)))"
    by (simp add: Set_has_def set_Set_add set_Set_delete set_new_Set)
  show "\<exists>st'. toggleCategory cat st = Inr st' \<and>
         set (selectedCategories st') =
           (if cat \<in> set (selectedCategories st) then set (selectedCategories st) - {cat}
            else insert cat (set (selectedCategories st))) \<and>
         mapped_pipelines CATEGORY_PIPELINE_MAP (selectedCategories st') =
           Inr (selectedPipelines st') \<and>
         set (selectedPipelines st') =
           (\<Union>c\<in>set (selectedCategories st'). set (table_pipelines CATEGORY_PIPELINE_MAP c)) \<and>
         distinct (selectedPipelines st')"
    using t n m s d by simp
next
  assume a: "cardChunks st = Some chunks \<and> category_breakdown chunks = Some breakdown \<and>
    plain_categories (map fst breakdown)"
  let ?all = "new_Set (map fst breakdown)"
  have pn: "plain_categories ?all"
    using a by (simp add: plain_categories_def set_new_Set)
  from mapped_pipelines_plain[OF pn, of CATEGORY_PIPELINE_MAP] obtain mapped where
    m: "mapped_pipelines CATEGORY_PIPELINE_MAP ?all = Inr mapped" and d: "distinct mapped"
    and s: "set mapped = (\<Union>c\<in>set ?all. set (table_pipelines CATEGORY_PIPELINE_MAP c))"
    by blast
  have t: "selectAllCategories st =
      Inr (st\<lparr>selectedCategories := ?all, selectedPipelines := mapped\<rparr>)"
    using a m by (simp add: selectAllCategories_def Let_def)
  show "\<exists>st'. selectAllCategories st = Inr st' \<and>
         set (selectedCategories st') = fst ` set breakdown \<and>
         set (selectedPipelines st') =
           (\<Union>c\<in>fst ` set breakdown. set (table_pipelines CATEGORY_PIPELINE_MAP c)) \<and>
         distinct (selectedPipelines st')"
    using t s d by (simp add: set_new_Set)
next
  assume "set cats \<subseteq> {''eligibility'', ''general''}"
  then show "mapped_pipelines CATEGORY_PIPELINE_MAP cats = Inr []"
    by (rule informational_only)
qed

theorem dispatcher_union_witness:
  "plain_categories [''lounge'', ''travel''] \<and>
   mapped_pipelines sample_table [''lounge'', ''travel''] = Inr [''travel_perks'', ''insurance''] \<and>
   (\<exists>mapped. mapped_pipelines sample_table [''lounge'', ''travel''] = Inr mapped \<and>
      set mapped = (\<Union>c\<in>set [''lounge'', ''travel'']. set (table_pipelines sample_table c)) \<and>
      distinct mapped \<and> (\<forall>p\<in>set mapped. count_list mapped p = 1)) \<and>
   plain_categories (''lounge'' # selectedCategories sample_pipeline_state) \<and>
   toggleCategory ''lounge'' sample_pipeline_state =
     Inr (sample_pipeline_state\<lparr>selectedCategories := [''eligibility'', ''travel'', ''lounge''],
                                selectedPipelines := [''travel_benefits'', ''lounge_access'']\<rparr>) \<and>
   selectAllCategories sample_pipeline_state =
     Inr (sample_pipeline_state\<lparr>selectedCategories := [''dining'', ''general'', ''fee''],
                                selectedPipelines := [''dining'', ''fee_waiver'']\<rparr>) \<and>
   mapped_pipelines CATEGORY_PIPELINE_MAP [''general'', ''eligibility''] = Inr []"
proof -
  have h1: "plain_categories [''lounge'', ''travel'']"
    by code_simp
  have h2: "plain_categories (''lounge'' # selectedCategories sample_pipeline_state)"
    by code_simp
  have e1: "mapped_pipelines sample_table [''lounge'', ''travel''] =
      Inr [''travel_perks'', ''insurance'']"
    by code_simp
  have e2: "toggleCategory ''lounge'' sample_pipeline_state =
     Inr (sample_pipeline_state\<lparr>selectedCategories := [''eligibility'', ''travel'', ''lounge''],
                                selectedPipelines := [''travel_benefits'', ''lounge_access'']\<rparr>)"
    by code_simp
  have e3: "selectAllCategories sample_pipeline_state =
     Inr (sample_pipeline_state\<lparr>selectedCategories := [''dining'', ''general'', ''fee''],
                                selectedPipelines := [''dining'', ''fee_waiver'']\<rparr>)"
    by code_simp
  have h4: "set [''general'', ''eligibility''] \<subseteq> {''eligibility'', ''general''}"
    by simp
  note inst = dispatcher_union[of "[''lounge'', ''travel'']" sample_table "''lounge''"
      sample_pipeline_state]
  from inst h1 have u: "\<exists>mapped. mapped_pipelines sample_table [''lounge'', ''travel''] = Inr mapped \<and>
      set mapped = (\<Union>c\<in>set [''lounge'', ''travel'']. set (table_pipelines sample_table c)) \<and>
      distinct mapped \<and> (\<forall>p\<in>set mapped. count_list mapped p = 1)"
    by blast
  from dispatcher_union[of "[''general'', ''eligibility'']"] h4
  have e4: "mapped_pipelines CATEGORY_PIPELINE_MAP [''general'', ''eligibility''] = Inr []"
    by blast
  show ?thesis using h1 h2 e1 e2 e3 e4 u by blast
qed

text \<open>Why the category names are asked to be plain: an inherited name makes the handler throw.\<close>

lemma inherited_name_throws: "toggleCategory ''constructor'' pipeline_initial = Inl TypeError"
  by code_simp

section \<open>Wizard: creating a session\<close>

lemma document_seed_effects:
  assumes "single_document_seed st"
  shows "snd (createSession server st) \<in>
           {[], [Request PostSessions], [Request PostSessionsUpload],
            [Request PostSessions, SetStep 4], [Request PostSessionsUpload, SetStep 4]}"
  using assms
  by (cases "sourceType st"; cases "create_session_reply server")
     (auto simp: single_document_seed_def createSession_def Let_def)

lemma document_seed_created:
  assumes "single_document_seed st" and "session_created server st d"
  shows "step (fst (createSession server st)) = 4 \<and>
         session (fst (createSession server st)) = Some d \<and>
         cards (fst (createSession server st)) = cards st \<and>
         snd (createSession server st) =
           [Request (if sourceType st = pdf_source then PostSessionsUpload else PostSessions),
            SetStep 4]"
  using assms
  by (cases "sourceType st"; cases "create_session_reply server")
     (auto simp: single_document_seed_def session_created_def seed_given_def createSession_def
        Let_def)

lemma discoverCards_effects:
  "\<exists>rest. snd (discoverCards server sid st) = Request (PostDiscoverCards sid) # rest \<and>
     SetStep 4 \<notin> set rest \<and>
     (step (fst (discoverCards server sid st)) = 2 \<or>
      step (fst (discoverCards server sid st)) = step st)"
  by (cases "discover_cards_reply server"; cases "get_cards_reply server")
     (auto simp: discoverCards_def handleError_def)

lemma discoverCards_no_step4: "SetStep 4 \<notin> set (snd (discoverCards server sid st))"
  using discoverCards_effects[of server sid st] by auto

lemma card_seed_no_step4:
  assumes "\<not> single_document_seed st"
  shows "SetStep 4 \<notin> set (snd (createSession server st))"
  using assms
  by (cases "mode st"; cases "sourceType st"; cases "create_session_reply server")
     (simp_all add: single_document_seed_def createSession_def Let_def case_prod_beta
        discoverCards_no_step4)

lemma card_seed_created:
  assumes "\<not> single_document_seed st" and "session_created server st d"
  shows "\<exists>rest. snd (createSession server st) =
            Request PostSessions # Request (PostDiscoverCards (session_id d)) # rest \<and>
          SetStep 4 \<notin> set rest \<and>
          session (fst (createSession server st)) = Some d \<and>
          (step (fst (createSession server st)) = 2 \<or>
           step (fst (createSession server st)) = step st)"
proof -
  let ?st1 = "st\<lparr>loading := True, error := [], session := Some d\<rparr>"
  from assms obtain res where res: "create_session_reply server = Fulfilled res"
    "reply_ok res" "reply_data res = d" and seed: "seed_given st"
    by (auto simp: session_created_def split: promise.splits)
  have cs: "createSession server st =
      (fst (discoverCards server (session_id d) ?st1),
       Request PostSessions # snd (discoverCards server (session_id d) ?st1))"
    using assms(1) res seed
    by (cases "mode st"; cases "sourceType st")
       (simp_all add: single_document_seed_def seed_given_def createSession_def Let_def
          case_prod_beta)
  have ses: "session (fst (discoverCards server (session_id d) ?st1)) = Some d"
    by (cases "discover_cards_reply server"; cases "get_cards_reply server")
       (simp_all add: discoverCards_def handleError_def)
  from discoverCards_effects[of server "session_id d" ?st1] obtain rest where
    "snd (discoverCards server (session_id d) ?st1) =
       Request (PostDiscoverCards (session_id d)) # rest"
    "SetStep 4 \<notin> set rest"
    "step (fst (discoverCards server (session_id d) ?st1)) = 2 \<or>
     step (fst (discoverCards server (session_id d) ?st1)) = step ?st1"
    by blast
  then show ?thesis using cs ses by simp
qed

text \<open>
  Claim C4. With pasted text or a PDF in single-card mode, \<open>createSession\<close> sends at most
  the creation request and enters at most step 4: it sends no card request and enters
  neither the card step nor the discovery step; when the session is created it stores the
  session and enters step 4, the URL selection, at once. With a URL or a bank,
  \<open>createSession\<close> never enters step 4 itself; when the session is created it goes on to
  the card discovery request, and ends in step 2 (cards) or, if discovery failed, in the
  step it started from.
\<close>

theorem single_document_seed_skips_cards:
  "(single_document_seed st \<longrightarrow>
      snd (createSession server st) \<in>
        {[], [Request PostSessions], [Request PostSessionsUpload],
         [Request PostSessions, SetStep 4], [Request PostSessionsUpload, SetStep 4]}) \<and>
   (single_document_seed st \<and> session_created server st d \<longrightarrow>
      step (fst (createSession server st)) = 4 \<and>
      session (fst (createSession server st)) = Some d \<and>
      cards (fst (createSession server st)) = cards st \<and>
      snd (createSession server st) =
        [Request (if sourceType st = pdf_source then PostSessionsUpload else PostSessions),
         SetStep 4]) \<and>
   (\<not> single_document_seed st \<longrightarrow> SetStep 4 \<notin> set (snd (createSession server st))) \<and>
   (\<not> single_document_seed st \<and> session_created server st d \<longrightarrow>
      (\<exists>rest. snd (createSession server st) =
            Request PostSessions # Request (PostDiscoverCards (session_id d)) # rest \<and>
          SetStep 4 \<notin> set rest \<and>
          session (fst (createSession server st)) = Some d \<and>
          (step (fst (createSession server st)) = 2 \<or>
           step (fst (createSession server st)) = step st)))"
  using document_seed_effects[of st server] document_seed_created[of st server d]
    card_seed_no_step4[of st server] card_seed_created[of st server d]
  by blast

theorem single_document_seed_witness:
  "single_document_seed sample_text_wizard \<and>
   session_created sample_server sample_text_wizard \<lparr>session_id = ''s-42''\<rparr> \<and>
   step (fst (createSession sample_server sample_text_wizard)) = 4 \<and>
   snd (createSession sample_server sample_text_wizard) = [Request PostSessions, SetStep 4] \<and>
   single_document_seed sample_pdf_wizard \<and>
   snd (createSession sample_server sample_pdf_wizard) = [Request PostSessionsUpload, SetStep 4] \<and>
   \<not> single_document_seed sample_url_wizard \<and>
   session_created sample_server sample_url_wizard \<lparr>session_id = ''s-42''\<rparr> \<and>
   snd (createSession sample_server sample_url_wizard) =
     [Request PostSessions, Request (PostDiscoverCards ''s-42''), Request (GetCards ''s-42''),
      SetStep 2] \<and>
   step (fst (createSession sample_server sample_url_wizard)) = 2 \<and>
   \<not> single_document_seed sample_bank_wizard \<and>
   step (fst (createSession sample_server sample_bank_wizard)) = 2"
proof -
  have t1: "single_document_seed sample_text_wizard" by code_simp
  have t2: "session_created sample_server sample_text_wizard \<lparr>session_id = ''s-42''\<rparr>"
    by code_simp
  from single_document_seed_skips_cards
    [of sample_text_wizard sample_server "\<lparr>session_id = ''s-42''\<rparr>"] t1 t2
  have t3: "step (fst (createSession sample_server sample_text_wizard)) = 4"
    by blast
  have t4: "snd (createSession sample_server sample_text_wizard) =
      [Request PostSessions, SetStep 4]"
    by code_simp
  have p1: "single_document_seed sample_pdf_wizard" by code_simp
  have p2: "snd (createSession sample_server sample_pdf_wizard) =
      [Request PostSessionsUpload, SetStep 4]"
    by code_simp
  have u1: "\<not> single_document_seed sample_url_wizard" by code_simp
  have u2: "session_created sample_server sample_url_wizard \<lparr>session_id = ''s-42''\<rparr>"
    by code_simp
  have u3: "snd (createSession sample_server sample_url_wizard) =
     [Request PostSessions, Request (PostDiscoverCards ''s-42''), Request (GetCards ''s-42''),
      SetStep 2]"
    by code_simp
  have u4: "step (fst (createSession sample_server sample_url_wizard)) = 2" by code_simp
  have b1: "\<not> single_document_seed sample_bank_wizard" by code_simp
  have b2: "step (fst (createSession sample_server sample_bank_wizard)) = 2" by code_simp
  show ?thesis using t1 t2 t3 t4 p1 p2 u1 u2 u3 u4 b1 b2 by blast
qed

section \<open>Wizard: reset and the keyword list\<close>

text \<open>
  Claim C8, as amended. Resetting the wizard clears the session, the cards, the URLs, the
  sources, the fetch statistics, the save result, the error and the typed inputs (card
  URL, pasted text, selected file) and returns to step 1. Maximum depth, the follow-links
  flag, the cache-bypass flag and the process-documents flag (and the scraping flag, the
  mode, the source type and the selected bank) stay as they were. The keyword list does
  not stay: it is set back to the default keywords.
\<close>

theorem reset_keeps_options_and_restores_keywords:
  "session (reset st) = None \<and> step (reset st) = 1 \<and> cards (reset st) = [] \<and>
   selectedCardIds (reset st) = [] \<and> urls (reset st) = [] \<and> selectedUrls (reset st) = [] \<and>
   wizard_sources (reset st) = [] \<and> fetchStats (reset st) = None \<and>
   saveResult (reset st) = None \<and> error (reset st) = [] \<and>
   singleCardUrl (reset st) = [] \<and> textContent (reset st) = [] \<and>
   selectedFile (reset st) = None \<and>
   maxDepth (reset st) = maxDepth st \<and> followLinks (reset st) = followLinks st \<and>
   bypassCache (reset st) = bypassCache st \<and> processPdfs (reset st) = processPdfs st \<and>
   usePlaywright (reset st) = usePlaywright st \<and>
   mode (reset st) = mode st \<and> sourceType (reset st) = sourceType st \<and>
   selectedBank (reset st) = selectedBank st \<and>
   wizard_keywords (reset st) = DEFAULT_KEYWORDS"
  by (simp add: reset_def)

theorem reset_witness:
  "step (reset sample_used_wizard) = 1 \<and> session (reset sample_used_wizard) = None \<and>
   selectedUrls (reset sample_used_wizard) = [] \<and>
   maxDepth (reset sample_used_wizard) = 3 \<and> followLinks (reset sample_used_wizard) = False \<and>
   bypassCache (reset sample_used_wizard) = True \<and>
   processPdfs (reset sample_used_wizard) = False \<and>
   wizard_keywords (reset sample_used_wizard) = DEFAULT_KEYWORDS"
  using reset_keeps_options_and_restores_keywords[of sample_used_wizard]
  by (simp add: sample_used_wizard_def)

text \<open>
  The claim as first stated fails on the keyword list (and on one input): a wizard with
  the single keyword \<open>salary transfer\<close> and the bank \<open>enbd\<close> chosen has the default keywords
  after a reset, and still the bank.
\<close>

theorem reset_discards_keywords_counterexample:
  "wizard_keywords (reset sample_used_wizard) \<noteq> wizard_keywords sample_used_wizard \<and>
   selectedBank (reset sample_used_wizard) = ''enbd''"
  by (simp add: reset_def sample_used_wizard_def DEFAULT_KEYWORDS_def)

lemma distinct_DEFAULT_KEYWORDS: "distinct DEFAULT_KEYWORDS"
  by code_simp

lemma distinct_addKeyword:
  "distinct (wizard_keywords st) \<Longrightarrow> distinct (wizard_keywords (addKeyword st))"
  by (simp add: addKeyword_def Let_def)

lemma distinct_keyword_step:
  "distinct (wizard_keywords st) \<Longrightarrow> distinct (wizard_keywords (keyword_step st a))"
  by (cases a)
     (simp_all add: setNewKeyword_def distinct_addKeyword removeKeyword_def resetKeywords_def
        reset_def distinct_DEFAULT_KEYWORDS)

lemma distinct_foldl_keyword_step:
  "distinct (wizard_keywords st) \<Longrightarrow> distinct (wizard_keywords (foldl keyword_step st acts))"
  by (induction acts arbitrary: st) (simp_all add: distinct_keyword_step)

text \<open>
  Claim C9. Whatever keywords the user types, adds and removes, and however often the
  keywords or the wizard are reset, the wizard's keyword list has no entry twice. Adding
  trims and lower-cases what was typed; when that is empty or already in the list, the
  list stays as it is, and otherwise the keyword goes to its end. The form of version 2
  has the same handlers, and they too keep a list without repetition so.
\<close>

theorem keyword_list_has_no_duplicates:
  "distinct (wizard_keywords (run_keyword_actions acts)) \<and>
   wizard_keywords (addKeyword st) =
     (if toLowerCase (trim (newKeyword st)) = [] \<or>
         toLowerCase (trim (newKeyword st)) \<in> set (wizard_keywords st)
      then wizard_keywords st
      else wizard_keywords st @ [toLowerCase (trim (newKeyword st))]) \<and>
   (distinct (form_keywords fs) \<longrightarrow>
      distinct (form_keywords (form_addKeyword fs)) \<and>
      distinct (form_keywords (form_removeKeyword k fs))) \<and>
   distinct (form_keywords (form_resetKeywords fs)) \<and>
   form_keywords (form_addKeyword fs) =
     (if toLowerCase (trim (form_newKeyword fs)) = [] \<or>
         toLowerCase (trim (form_newKeyword fs)) \<in> set (form_keywords fs)
      then form_keywords fs
      else form_keywords fs @ [toLowerCase (trim (form_newKeyword fs))])"
proof -
  have a: "distinct (wizard_keywords (run_keyword_actions acts))"
    unfolding run_keyword_actions_def
    by (rule distinct_foldl_keyword_step) (simp add: wizard_initial_def distinct_DEFAULT_KEYWORDS)
  have b: "wizard_keywords (addKeyword st) =
     (if toLowerCase (trim (newKeyword st)) = [] \<or>
         toLowerCase (trim (newKeyword st)) \<in> set (wizard_keywords st)
      then wizard_keywords st
      else wizard_keywords st @ [toLowerCase (trim (newKeyword st))])"
    by (simp add: addKeyword_def Let_def)
  have c: "distinct (form_keywords fs) \<longrightarrow>
      distinct (form_keywords (form_addKeyword fs)) \<and>
      distinct (form_keywords (form_removeKeyword k fs))"
    by (simp add: form_addKeyword_def form_removeKeyword_def Let_def)
  have d: "distinct (form_keywords (form_resetKeywords fs))"
    by (simp add: form_resetKeywords_def distinct_DEFAULT_KEYWORDS)
  have e: "form_keywords (form_addKeyword fs) =
     (if toLowerCase (trim (form_newKeyword fs)) = [] \<or>
         toLowerCase (trim (form_newKeyword fs)) \<in> set (form_keywords fs)
      then form_keywords fs
      else form_keywords fs @ [toLowerCase (trim (form_newKeyword fs))])"
    by (simp add: form_addKeyword_def Let_def)
  show ?thesis using a b c d e by blast
qed

theorem keyword_list_witness:
  "wizard_keywords
     (run_keyword_actions
        [ResetKeywords, RemoveKeyword ''golf'', TypeKeyword ''  Salary Transfer '', AddKeyword,
         TypeKeyword ''SALARY TRANSFER'', AddKeyword, TypeKeyword ''   '', AddKeyword,
         TypeKeyword ''Golf'', AddKeyword]) =
     filter (\<lambda>k. k \<noteq> ''golf'') DEFAULT_KEYWORDS @ [''salary transfer'', ''golf''] \<and>
   distinct (wizard_keywords
     (run_keyword_actions
        [ResetKeywords, RemoveKeyword ''golf'', TypeKeyword ''  Salary Transfer '', AddKeyword,
         TypeKeyword ''SALARY TRANSFER'', AddKeyword, TypeKeyword ''   '', AddKeyword,
         TypeKeyword ''Golf'', AddKeyword])) \<and>
   distinct (form_keywords form_initial) \<and>
   distinct (form_keywords (form_addKeyword form_initial))"
proof -
  have r: "wizard_keywords
     (run_keyword_actions
        [ResetKeywords, RemoveKeyword ''golf'', TypeKeyword ''  Salary Transfer '', AddKeyword,
         TypeKeyword ''SALARY TRANSFER'', AddKeyword, TypeKeyword ''   '', AddKeyword,
         TypeKeyword ''Golf'', AddKeyword]) =
     filter (\<lambda>k. k \<noteq> ''golf'') DEFAULT_KEYWORDS @ [''salary transfer'', ''golf'']"
    by code_simp
  have f: "distinct (form_keywords form_initial)"
    by (simp add: form_initial_def distinct_DEFAULT_KEYWORDS)
  note inst = keyword_list_has_no_duplicates
    [of "[ResetKeywords, RemoveKeyword ''golf'', TypeKeyword ''  Salary Transfer '', AddKeyword,
          TypeKeyword ''SALARY TRANSFER'', AddKeyword, TypeKeyword ''   '', AddKeyword,
          TypeKeyword ''Golf'', AddKeyword]" wizard_initial form_initial "''golf''"]
  show ?thesis using r f inst by blast
qed

section \<open>Results viewer: deleting a benefit\<close>

lemma filter_by_id:
  assumes "distinct (map benefit_id xs)" and "b \<in> set xs"
  shows "filter (\<lambda>x. benefit_id x \<noteq> benefit_id b) xs = filter (\<lambda>x. x \<noteq> b) xs"
proof (rule filter_cong[OF refl])
  fix x assume "x \<in> set xs"
  with assms have "benefit_id x = benefit_id b \<longleftrightarrow> x = b"
    by (auto simp: distinct_map inj_on_def)
  then show "(benefit_id x \<noteq> benefit_id b) = (x \<noteq> b)" by simp
qed

lemma deleted_after_success:
  assumes "truthy_string (rawDataId v)"
  shows "deletedBenefits (fst (handleDeleteBenefit True (Fulfilled ()) notify bid v)) =
           Set_add bid (new_Set (deletedBenefits v)) \<and>
         all_benefits (fst (handleDeleteBenefit True (Fulfilled ()) notify bid v)) =
           all_benefits v \<and>
         snd (handleDeleteBenefit True (Fulfilled ()) notify bid v) =
           DeleteBenefitRequest (the (rawDataId v)) bid #
             (if notify then [OnBenefitDeleted bid] else [])"
  using assms by (simp add: handleDeleteBenefit_def Let_def)

lemma visible_after_success:
  assumes "truthy_string (rawDataId v)"
  shows "visible_benefits (fst (handleDeleteBenefit True (Fulfilled ()) notify bid v)) =
           filter (\<lambda>x. benefit_id x \<noteq> bid) (visible_benefits v)"
  using deleted_after_success[OF assms, of notify bid]
  by (simp add: visible_benefits_def Set_has_def set_Set_add set_new_Set conj_commute)

lemma no_raw_data_id:
  "\<not> truthy_string (rawDataId v) \<Longrightarrow>
   fst (handleDeleteBenefit confirmed api notify bid v) = v"
  by (simp add: handleDeleteBenefit_def)

lemma nothing_deleted:
  "visible_benefits (fst (handleDeleteBenefit False api notify bid v)) = visible_benefits v \<and>
   visible_benefits (fst (handleDeleteBenefit confirmed (Rejected msg) notify bid v)) =
     visible_benefits v"
  by (simp add: handleDeleteBenefit_def Let_def visible_benefits_def)

text \<open>
  Claim C7, as amended. In a result set whose benefit ids are pairwise distinct, deleting
  a visible benefit (the user confirms, the request succeeds) leaves the benefits array as
  it was, takes exactly that benefit out of the visible list, every other visible benefit
  staying in place and unchanged, and lowers the count in the badge by one. The handler
  sends the delete request and tells the parent, nothing else: no pipeline is run again
  and nothing is merged. A deletion the user cancels, or one the server refuses, changes
  nothing in the visible list, and without a raw data id nothing changes at all. The
  visible list is filtered by id: what a successful deletion takes out of it are the
  benefits that carry the deleted id.
\<close>

theorem benefit_deletion_is_local:
  "(deletable v b \<longrightarrow>
      all_benefits (fst (handleDeleteBenefit True (Fulfilled ()) notify (benefit_id b) v)) =
        all_benefits v \<and>
      visible_benefits (fst (handleDeleteBenefit True (Fulfilled ()) notify (benefit_id b) v)) =
        filter (\<lambda>x. x \<noteq> b) (visible_benefits v) \<and>
      length (visible_benefits
                (fst (handleDeleteBenefit True (Fulfilled ()) notify (benefit_id b) v))) + 1 =
        length (visible_benefits v) \<and>
      benefits_badge (fst (handleDeleteBenefit True (Fulfilled ()) notify (benefit_id b) v)) =
        benefits_badge v - 1 \<and>
      snd (handleDeleteBenefit True (Fulfilled ()) notify (benefit_id b) v) =
        DeleteBenefitRequest (the (rawDataId v)) (benefit_id b) #
          (if notify then [OnBenefitDeleted (benefit_id b)] else [])) \<and>
   visible_benefits (fst (handleDeleteBenefit False api notify bid v)) = visible_benefits v \<and>
   visible_benefits (fst (handleDeleteBenefit confirmed (Rejected msg) notify bid v)) =
     visible_benefits v \<and>
   (truthy_string (rawDataId v) \<longrightarrow>
      visible_benefits (fst (handleDeleteBenefit True (Fulfilled ()) notify bid v)) =
        filter (\<lambda>x. benefit_id x \<noteq> bid) (visible_benefits v) \<and>
      all_benefits (fst (handleDeleteBenefit True (Fulfilled ()) notify bid v)) =
        all_benefits v) \<and>
   (\<not> truthy_string (rawDataId v) \<longrightarrow>
      fst (handleDeleteBenefit confirmed api notify bid v) = v)"
proof (intro conjI impI)
  let ?v = "fst (handleDeleteBenefit True (Fulfilled ()) notify (benefit_id b) v)"
  assume del_ok: "deletable v b"
  then have ids: "distinct (map benefit_id (all_benefits v))"
    and dd: "distinct (deletedBenefits v)" and raw: "truthy_string (rawDataId v)"
    and vis: "b \<in> set (visible_benefits v)"
    by (simp_all add: deletable_def)
  from vis have nd: "benefit_id b \<notin> set (deletedBenefits v)"
    by (simp add: visible_benefits_def Set_has_def)
  note after = deleted_after_success[OF raw, of notify "benefit_id b"]
  have del: "deletedBenefits ?v = deletedBenefits v @ [benefit_id b]"
    using after nd dd by (simp add: new_Set_distinct Set_add_def)
  show allb: "all_benefits ?v = all_benefits v" using after by simp
  have "visible_benefits ?v =
        filter (\<lambda>x. benefit_id x \<noteq> benefit_id b) (visible_benefits v)"
    by (simp add: visible_benefits_def del allb Set_has_def conj_commute)
  also have "\<dots> = filter (\<lambda>x. x \<noteq> b) (visible_benefits v)"
  proof (rule filter_by_id)
    show "distinct (map benefit_id (visible_benefits v))"
      using ids by (simp add: visible_benefits_def distinct_map_filter)
    show "b \<in> set (visible_benefits v)" by (rule vis)
  qed
  finally show visf: "visible_benefits ?v = filter (\<lambda>x. x \<noteq> b) (visible_benefits v)" .
  have dv: "distinct (visible_benefits v)"
    using ids by (simp add: visible_benefits_def distinct_map distinct_filter)
  have "filter (\<lambda>x. x \<noteq> b) (visible_benefits v) = remove1 b (visible_benefits v)"
    using dv by (simp add: distinct_remove1_removeAll removeAll_filter_not_eq eq_commute)
  then have "length (visible_benefits ?v) = length (visible_benefits v) - 1"
    using visf vis by (simp add: length_remove1)
  moreover have "length (visible_benefits v) > 0"
    using vis by (cases "visible_benefits v") auto
  ultimately show "length (visible_benefits ?v) + 1 = length (visible_benefits v)" by simp
  show "benefits_badge ?v = benefits_badge v - 1"
    by (simp add: benefits_badge_def del allb)
  show "snd (handleDeleteBenefit True (Fulfilled ()) notify (benefit_id b) v) =
        DeleteBenefitRequest (the (rawDataId v)) (benefit_id b) #
          (if notify then [OnBenefitDeleted (benefit_id b)] else [])"
    using after by simp
next
  show "visible_benefits (fst (handleDeleteBenefit False api notify bid v)) = visible_benefits v"
    using nothing_deleted by simp
next
  show "visible_benefits (fst (handleDeleteBenefit confirmed (Rejected msg) notify bid v)) =
     visible_benefits v"
    using nothing_deleted[of api notify bid v confirmed msg] by simp
next
  assume "truthy_string (rawDataId v)"
  then show "visible_benefits (fst (handleDeleteBenefit True (Fulfilled ()) notify bid v)) =
        filter (\<lambda>x. benefit_id x \<noteq> bid) (visible_benefits v)"
    by (rule visible_after_success)
next
  assume "truthy_string (rawDataId v)"
  then show "all_benefits (fst (handleDeleteBenefit True (Fulfilled ()) notify bid v)) =
        all_benefits v"
    using deleted_after_success[of v notify bid] by simp
next
  assume "\<not> truthy_string (rawDataId v)"
  then show "fst (handleDeleteBenefit confirmed api notify bid v) = v"
    by (rule no_raw_data_id)
qed

theorem benefit_deletion_witness:
  "deletable sample_viewer (sample_benefit ''b1'' ''Lounge access'') \<and>
   visible_benefits sample_viewer =
     [sample_benefit ''b1'' ''Lounge access'', sample_benefit ''b2'' ''Cashback''] \<and>
   benefits_badge sample_viewer = 2 \<and>
   visible_benefits (fst (handleDeleteBenefit True (Fulfilled ()) True (Some ''b1'') sample_viewer)) =
     [sample_benefit ''b2'' ''Cashback''] \<and>
   benefits_badge (fst (handleDeleteBenefit True (Fulfilled ()) True (Some ''b1'') sample_viewer)) = 1 \<and>
   all_benefits (fst (handleDeleteBenefit True (Fulfilled ()) True (Some ''b1'') sample_viewer)) =
     all_benefits sample_viewer"
proof -
  have h: "deletable sample_viewer (sample_benefit ''b1'' ''Lounge access'')"
    by code_simp
  have i: "benefit_id (sample_benefit ''b1'' ''Lounge access'') = Some ''b1''"
    by (simp add: sample_benefit_def)
  have v0: "visible_benefits sample_viewer =
     [sample_benefit ''b1'' ''Lounge access'', sample_benefit ''b2'' ''Cashback'']"
    by code_simp
  have c0: "benefits_badge sample_viewer = 2"
    by code_simp
  have v1: "visible_benefits
      (fst (handleDeleteBenefit True (Fulfilled ()) True (Some ''b1'') sample_viewer)) =
     [sample_benefit ''b2'' ''Cashback'']"
    by code_simp
  from benefit_deletion_is_local
    [of sample_viewer "sample_benefit ''b1'' ''Lounge access''" True] h i
  have c1: "benefits_badge
        (fst (handleDeleteBenefit True (Fulfilled ()) True (Some ''b1'') sample_viewer)) =
      benefits_badge sample_viewer - 1"
    and a1: "all_benefits
        (fst (handleDeleteBenefit True (Fulfilled ()) True (Some ''b1'') sample_viewer)) =
      all_benefits sample_viewer"
    by simp_all
  show ?thesis using h v0 c0 v1 c1 a1 by simp
qed

text \<open>
  The claim as first stated, for every displayed result set, fails where two benefits
  carry one id: both are visible, the user deletes the first, and the second leaves the
  visible list with it, while the badge goes from 2 to 1 over an empty list.
\<close>

theorem benefit_deletion_shared_id_counterexample:
  "visible_benefits sample_shared_id_viewer =
     [sample_benefit ''b1'' ''Lounge access'', sample_benefit ''b1'' ''Golf''] \<and>
   benefits_badge sample_shared_id_viewer = 2 \<and>
   visible_benefits
     (fst (handleDeleteBenefit True (Fulfilled ()) False
        (benefit_id (sample_benefit ''b1'' ''Lounge access'')) sample_shared_id_viewer)) = [] \<and>
   visible_benefits
     (fst (handleDeleteBenefit True (Fulfilled ()) False
        (benefit_id (sample_benefit ''b1'' ''Lounge access'')) sample_shared_id_viewer)) \<noteq>
     filter (\<lambda>x. x \<noteq> sample_benefit ''b1'' ''Lounge access'')
       (visible_benefits sample_shared_id_viewer) \<and>
   benefits_badge
     (fst (handleDeleteBenefit True (Fulfilled ()) False
        (benefit_id (sample_benefit ''b1'' ''Lounge access'')) sample_shared_id_viewer)) = 1"
  by code_simp

section \<open>Form of version 2: the selection after discovery\<close>

lemma set_highRelevance:
  "set (highRelevance dl pl) = link_url ` {l \<in> set dl \<union> set pl. relevance l = ''high''}"
  by (auto simp: highRelevance_def)

text \<open>
  Claim C10. When discovery succeeds (a URL was entered, the call returns both link
  lists), the form enters step 2 with, as selected URLs, the URLs of the high-relevance
  web links followed by those of the high-relevance PDF links: a discovered link's URL is
  selected exactly when some discovered link with that URL has relevance high, so a URL
  that is only of medium or low relevance starts unselected.
\<close>

theorem discovery_selects_high_relevance:
  assumes "trim (inputValue st) \<noteq> []"
    and "discovered_links r = Some dl" and "pdf_links r = Some pl"
  shows "form_step (handleDiscover (Discovered r) st) = 2 \<and>
         discoveryResult (handleDiscover (Discovered r) st) = Some r \<and>
         form_selectedUrls (handleDiscover (Discovered r) st) =
           map link_url (filter (\<lambda>l. relevance l = ''high'') dl) @
           map link_url (filter (\<lambda>l. relevance l = ''high'') pl) \<and>
         set (form_selectedUrls (handleDiscover (Discovered r) st)) =
           link_url ` {l \<in> set dl \<union> set pl. relevance l = ''high''} \<and>
         (\<forall>l\<in>set dl \<union> set pl.
            link_url l \<in> set (form_selectedUrls (handleDiscover (Discovered r) st)) \<longleftrightarrow>
            (\<exists>h\<in>set dl \<union> set pl. relevance h = ''high'' \<and> link_url h = link_url l))"
proof -
  have sel: "form_selectedUrls (handleDiscover (Discovered r) st) = highRelevance dl pl"
    and stp: "form_step (handleDiscover (Discovered r) st) = 2"
    and res: "discoveryResult (handleDiscover (Discovered r) st) = Some r"
    using assms by (simp_all add: handleDiscover_def Let_def)
  have mem: "\<forall>l\<in>set dl \<union> set pl.
      link_url l \<in> link_url ` {l \<in> set dl \<union> set pl. relevance l = ''high''} \<longleftrightarrow>
      (\<exists>h\<in>set dl \<union> set pl. relevance h = ''high'' \<and> link_url h = link_url l)"
    by (auto simp: image_iff)
  show ?thesis
    unfolding sel stp res set_highRelevance
    using mem by (simp add: highRelevance_def)
qed

theorem discovery_selection_witness:
  "trim (inputValue sample_form) \<noteq> [] \<and>
   form_step (handleDiscover (Discovered sample_discovery) sample_form) = 2 \<and>
   form_selectedUrls (handleDiscover (Discovered sample_discovery) sample_form) =
     [''https://bank.example/benefits'', ''https://bank.example/fees.pdf'']"
proof -
  have h: "trim (inputValue sample_form) \<noteq> []"
    by code_simp
  have d: "discovered_links sample_discovery =
      Some [\<lparr>link_url = ''https://bank.example/benefits'', relevance = ''high''\<rparr>,
            \<lparr>link_url = ''https://bank.example/about'', relevance = ''low''\<rparr>,
            \<lparr>link_url = ''https://bank.example/offers'', relevance = ''medium''\<rparr>]"
    by (simp add: sample_discovery_def)
  have p: "pdf_links sample_discovery =
      Some [\<lparr>link_url = ''https://bank.example/fees.pdf'', relevance = ''high''\<rparr>,
            \<lparr>link_url = ''https://bank.example/terms.pdf'', relevance = ''medium''\<rparr>]"
    by (simp add: sample_discovery_def)
  from discovery_selects_high_relevance[OF h d p]
  show ?thesis using h by simp
qed

end
